theory Spec2Isabelle
  imports Complex_Main "HOL-Library.Word"
begin

section \<open>Data model (types.ts and the response type of the remote service)\<close>

text \<open>
  The style themes and aspect ratios of \<^verbatim>\<open>types.ts\<close> are string unions; they are
  enumerations here. A character image carries the MIME type of its file and its base64
  text.
\<close>

datatype StyleTheme = Real | Style2D | Style3D

datatype AspectRatio = Portrait_9_16 | Landscape_16_9

record CharacterImage =
  file_type :: string
  base64 :: string

record FormData =
  title :: string
  description :: string
  style :: StyleTheme
  aspectRatio :: AspectRatio
  character1 :: "CharacterImage option"
  character2 :: "CharacterImage option"

text \<open>
  A structure clip has a number, a narration and a prompt; a storyboard clip has the same
  three fields and, in addition, an image and an audio string. The second record extends
  the first, as the object spread \<^verbatim>\<open>{...clip, image, audio}\<close> does. Scenes are the
  same record over either kind of clip.
\<close>

record StoryboardStructureClip =
  clip :: int
  narration :: string
  prompt :: string

record Clip = StoryboardStructureClip +
  image :: string
  audio :: string

record 'c Scene =
  scene :: int
  clips :: "'c list"

type_synonym StoryboardStructure = "StoryboardStructureClip Scene list"

type_synonym Storyboard = "Clip Scene list"

text \<open>
  The part of \<^verbatim>\<open>GenerateContentResponse\<close> that the code reads. Every field is
  optional in the service's type, so every field is an option here.
\<close>

datatype Blob = Blob (blob_data: "string option") (mimeType: "string option")

datatype Part = Part (inlineData: "Blob option") (part_text: "string option")

datatype Content = Content (parts: "Part list option")

datatype Candidate = Candidate (content: "Content option")

datatype GenerateContentResponse =
  GenerateContentResponse (candidates: "Candidate list option")

section \<open>Extraction of the inline payload\<close>

text \<open>
  \<^verbatim>\<open>response.candidates?.[0]?.content?.parts ?? []\<close>: the parts of the first
  candidate, and the empty list when the candidate list is absent or empty, or the first
  candidate has no content, or the content has no parts.
\<close>

definition first_candidate_parts :: "GenerateContentResponse \<Rightarrow> Part list" where
  "first_candidate_parts response =
     (case candidates response of
        None \<Rightarrow> []
      | Some [] \<Rightarrow> []
      | Some (c # _) \<Rightarrow>
          (case content c of
             None \<Rightarrow> []
           | Some ct \<Rightarrow> (case parts ct of None \<Rightarrow> [] | Some ps \<Rightarrow> ps)))"

text \<open>
  The \<^verbatim>\<open>for\<close> loop of \<^verbatim>\<open>findInlineData\<close>: the first part with an
  \<^verbatim>\<open>inlineData\<close> object ends the loop with that object's \<^verbatim>\<open>data\<close>
  (which may itself be absent); a list without such a part gives \<^verbatim>\<open>undefined\<close>.
\<close>

fun findInlineData_loop :: "Part list \<Rightarrow> string option" where
  "findInlineData_loop [] = None"
| "findInlineData_loop (p # ps) =
     (case inlineData p of
        Some b \<Rightarrow> blob_data b
      | None \<Rightarrow> findInlineData_loop ps)"

definition findInlineData :: "GenerateContentResponse \<Rightarrow> string option" where
  "findInlineData response = findInlineData_loop (first_candidate_parts response)"

section \<open>The generation pipeline (generateStoryboard)\<close>

subsection \<open>Numbers in template strings\<close>

text \<open>
  Scene and clip numbers are JSON integers and the clip counter is a count; a template
  string prints them in decimal, with a minus sign for a negative number. The model
  takes the numbers as mathematical integers. JavaScript numbers are double-precision
  floats: they print as the exact decimal digits of an integer only within the safe
  integer range, up to \<open>2\<^sup>5\<^sup>3 - 1\<close> in absolute value, so the statements that
  mention a printed scene or clip number are made for numbers of that range.
\<close>

definition digit_char :: "nat \<Rightarrow> char" where
  "digit_char d = ''0123456789'' ! d"

function show_nat :: "nat \<Rightarrow> string" where
  "show_nat n = (if n < 10 then [digit_char n] else show_nat (n div 10) @ [digit_char (n mod 10)])"
  by pat_completeness auto
termination
  by (relation "measure id") auto

declare show_nat.simps [simp del]

definition show_int :: "int \<Rightarrow> string" where
  "show_int i = (if i < 0 then CHR ''-'' # show_nat (nat (- i)) else show_nat (nat i))"

definition safe_integer :: "int \<Rightarrow> bool" where
  "safe_integer i \<longleftrightarrow> - 9007199254740991 \<le> i \<and> i \<le> 9007199254740991"

subsection \<open>Messages\<close>

definition msg_analysing :: string where
  "msg_analysing = ''Menganalisis cerita dan karakter...''"

definition msg_visuals :: string where
  "msg_visuals = ''Membuat visual untuk setiap klip...''"

definition msg_done :: string where
  "msg_done = ''Selesai!''"

text \<open>The progress message of one clip: scene number, clip number, counter and total.\<close>

definition clip_progress_message :: "int \<Rightarrow> int \<Rightarrow> nat \<Rightarrow> nat \<Rightarrow> string" where
  "clip_progress_message sceneNo clipNo clipCount totalClips =
     ''Membuat visual & audio untuk adegan '' @ show_int sceneNo @ '', klip '' @
     show_int clipNo @ ''... ('' @ show_nat clipCount @ ''/'' @ show_nat totalClips @ '')''"

text \<open>The message of the error thrown when a payload is missing: clip number, then scene number.\<close>

definition clip_error_message :: "int \<Rightarrow> int \<Rightarrow> string" where
  "clip_error_message clipNo sceneNo =
     ''Gagal membuat konten untuk klip '' @ show_int clipNo @ '' di adegan '' @
     show_int sceneNo @ ''. Respon API tidak valid atau diblokir.''"

subsection \<open>Errors, the remote service, and what the pipeline does\<close>

text \<open>
  The ways \<^verbatim>\<open>generateStoryboard\<close> fails: a remote call is rejected (the rejection
  is passed on as it is), \<^verbatim>\<open>JSON.parse\<close> raises a \<^verbatim>\<open>SyntaxError\<close>, or the
  pipeline throws its own \<^verbatim>\<open>Error\<close> with a message.
\<close>

datatype error = Rejected string | SyntaxError | Error string

text \<open>
  What \<^verbatim>\<open>JSON.parse(response.text)\<close> makes of the structure response: the text is
  not JSON, or it is decoded. The decoded value is used at the type the code gives it
  (\<^verbatim>\<open>StoryboardStructure\<close>), which is also the type the \<^verbatim>\<open>responseSchema\<close>
  of the request describes: an array of objects with an integer \<^verbatim>\<open>scene\<close> and an
  array \<^verbatim>\<open>clips\<close> of objects with an integer \<^verbatim>\<open>clip\<close> and two strings. The
  schema gives no bound on the length of either array, and the code checks none.
\<close>

datatype StructureReply = NotJSON | Decoded StoryboardStructure

text \<open>
  The remote service is a parameter of the model. The structure request is represented
  by the four values the instruction text embeds (title, description, style and the
  orientation word); the rest of the instruction and the configuration are constants of
  the code. Each media request is answered by a response or rejected with an error. The
  requests are given the number of the clip iteration, so that two clips with the same
  texts may be answered differently. The two requests of a clip run concurrently; when
  both are rejected, \<open>audioSettlesFirst\<close> says which rejection came first.
\<close>

record Backend =
  generateStructure :: "string \<Rightarrow> string \<Rightarrow> StyleTheme \<Rightarrow> string \<Rightarrow> error + StructureReply"
  generateImage :: "nat \<Rightarrow> Part list \<Rightarrow> error + GenerateContentResponse"
  generateAudio :: "nat \<Rightarrow> string \<Rightarrow> error + GenerateContentResponse"
  audioSettlesFirst :: "nat \<Rightarrow> bool"

text \<open>
  \<^verbatim>\<open>await Promise.all([imagePromise, audioPromise])\<close>: the pair of the two responses
  when both requests are fulfilled; otherwise the await throws the rejection of the
  request that was rejected, and of the one rejected first when both were.
\<close>

definition Promise_all ::
  "error + GenerateContentResponse \<Rightarrow> error + GenerateContentResponse \<Rightarrow> bool \<Rightarrow>
   error + GenerateContentResponse \<times> GenerateContentResponse" where
  "Promise_all imageOutcome audioOutcome audioFirst =
     (case (imageOutcome, audioOutcome) of
        (Inr imageResponse, Inr audioResponse) \<Rightarrow> Inr (imageResponse, audioResponse)
      | (Inl e, Inr _) \<Rightarrow> Inl e
      | (Inr _, Inl e) \<Rightarrow> Inl e
      | (Inl e, Inl e') \<Rightarrow> Inl (if audioFirst then e' else e))"

text \<open>
  What an observer sees of a run, in order: the calls of the progress callback and the
  requests sent to the service.
\<close>

datatype event =
    Progress string
  | StructureRequest string string StyleTheme string
  | ImageRequest "Part list"
  | AudioRequest string

subsection \<open>Building the requests\<close>

definition orientation :: "AspectRatio \<Rightarrow> string" where
  "orientation r = (if r = Portrait_9_16 then ''portrait'' else ''landscape'')"

definition fileToGenerativePart :: "string \<Rightarrow> string \<Rightarrow> Part" where
  "fileToGenerativePart b64 mime = Part (Some (Blob (Some b64) (Some mime))) None"

definition imagePrompt :: "StoryboardStructureClip \<Rightarrow> string" where
  "imagePrompt c =
     ''Using the provided reference images for the characters, generate an image for the following prompt: '' @
     prompt c"

definition imageParts :: "FormData \<Rightarrow> StoryboardStructureClip \<Rightarrow> Part list" where
  "imageParts formData c =
     (case character1 formData of
        Some ch \<Rightarrow> [fileToGenerativePart (base64 ch) (file_type ch)]
      | None \<Rightarrow> []) @
     (case character2 formData of
        Some ch \<Rightarrow> [fileToGenerativePart (base64 ch) (file_type ch)]
      | None \<Rightarrow> []) @
     [Part None (Some (imagePrompt c))]"

subsection \<open>The loops\<close>

text \<open>
  \<^verbatim>\<open>!imageB64\<close>: an absent payload and the empty string are both falsy.
\<close>

definition falsy :: "string option \<Rightarrow> bool" where
  "falsy v = (case v of None \<Rightarrow> True | Some s \<Rightarrow> s = [])"

text \<open>
  The inner loop, over the clips of one scene. Its state is the trace so far, the
  counter \<^verbatim>\<open>clipCount\<close> and the list \<^verbatim>\<open>generatedClips\<close>. A rejection of
  a media request and the missing-payload error both end the whole run with the trace so
  far.
\<close>

fun clips_loop ::
  "FormData \<Rightarrow> Backend \<Rightarrow> nat \<Rightarrow> int \<Rightarrow> StoryboardStructureClip list \<Rightarrow>
   event list \<Rightarrow> nat \<Rightarrow> Clip list \<Rightarrow> event list \<times> (error + nat \<times> Clip list)" where
  "clips_loop formData be totalClips sceneNo [] tr clipCount generatedClips =
     (tr, Inr (clipCount, generatedClips))"
| "clips_loop formData be totalClips sceneNo (c # cs) tr clipCount generatedClips =
     (let clipCount' = Suc clipCount;
          tr' = tr @ [Progress (clip_progress_message sceneNo (clip c) clipCount' totalClips),
                      ImageRequest (imageParts formData c),
                      AudioRequest (narration c)]
      in case Promise_all (generateImage be clipCount' (imageParts formData c))
                (generateAudio be clipCount' (narration c)) (audioSettlesFirst be clipCount') of
           Inl e \<Rightarrow> (tr', Inl e)
         | Inr (imageResponse, audioResponse) \<Rightarrow>
             (let imageB64 = findInlineData imageResponse;
                  audioB64 = findInlineData audioResponse
              in if falsy imageB64 \<or> falsy audioB64
                 then (tr', Inl (Error (clip_error_message (clip c) sceneNo)))
                 else clips_loop formData be totalClips sceneNo cs tr' clipCount'
                        (generatedClips @
                         [\<lparr>clip = clip c, narration = narration c, prompt = prompt c,
                           image = ''data:image/png;base64,'' @ the imageB64,
                           audio = the audioB64\<rparr>])))"

text \<open>The outer loop, over the scenes; \<^verbatim>\<open>finalStoryboard\<close> is its accumulator.\<close>

fun scenes_loop ::
  "FormData \<Rightarrow> Backend \<Rightarrow> nat \<Rightarrow> StoryboardStructure \<Rightarrow>
   event list \<Rightarrow> nat \<Rightarrow> Storyboard \<Rightarrow> event list \<times> (error + nat \<times> Storyboard)" where
  "scenes_loop formData be totalClips [] tr clipCount finalStoryboard =
     (tr, Inr (clipCount, finalStoryboard))"
| "scenes_loop formData be totalClips (s # ss) tr clipCount finalStoryboard =
     (case clips_loop formData be totalClips (scene s) (clips s) tr clipCount [] of
        (tr', Inl e) \<Rightarrow> (tr', Inl e)
      | (tr', Inr (clipCount', generatedClips)) \<Rightarrow>
          scenes_loop formData be totalClips ss tr' clipCount'
            (finalStoryboard @ [\<lparr>scene = scene s, clips = generatedClips\<rparr>]))"

definition totalClips_of :: "StoryboardStructure \<Rightarrow> nat" where
  "totalClips_of storyStructure = foldl (\<lambda>acc s. acc + length (clips s)) 0 storyStructure"

text \<open>
  The whole function: the trace of the run, and the storyboard or the error the promise
  settles with.
\<close>

definition generateStoryboard :: "FormData \<Rightarrow> Backend \<Rightarrow> event list \<times> (error + Storyboard)" where
  "generateStoryboard formData be =
     (let tr0 = [Progress msg_analysing,
                 StructureRequest (title formData) (description formData) (style formData)
                   (orientation (aspectRatio formData))]
      in case generateStructure be (title formData) (description formData) (style formData)
                (orientation (aspectRatio formData)) of
           Inl e \<Rightarrow> (tr0, Inl e)
         | Inr NotJSON \<Rightarrow> (tr0, Inl SyntaxError)
         | Inr (Decoded storyStructure) \<Rightarrow>
             (case scenes_loop formData be (totalClips_of storyStructure) storyStructure
                     (tr0 @ [Progress msg_visuals]) 0 [] of
                (tr, Inl e) \<Rightarrow> (tr, Inl e)
              | (tr, Inr (_, finalStoryboard)) \<Rightarrow>
                  (tr @ [Progress msg_done], Inr finalStoryboard)))"

section \<open>Audio decoding (decode, decodeAudioData)\<close>

text \<open>
  Bytes are 8-bit words and the elements of an \<^verbatim>\<open>Int16Array\<close> are 16-bit words. The
  platform functions that the code calls can throw; the exceptions that matter are an
  enumeration: \<^verbatim>\<open>atob\<close> throws \<^verbatim>\<open>InvalidCharacterError\<close> on text that is not
  base64, \<^verbatim>\<open>new Int16Array(buffer)\<close> throws \<^verbatim>\<open>RangeError\<close> when the byte length of
  the buffer is odd, \<^verbatim>\<open>createBuffer\<close> throws \<^verbatim>\<open>NotSupportedError\<close> when the number
  of frames is zero, and \<^verbatim>\<open>stop()\<close> throws \<^verbatim>\<open>InvalidStateError\<close> on a source that
  was never started.
\<close>

type_synonym byte = "8 word"

type_synonym int16 = "16 word"

datatype playback_error = InvalidCharacterError | RangeError | NotSupportedError | InvalidStateError

text \<open>
  \<^verbatim>\<open>decode\<close>: \<^verbatim>\<open>atob\<close> gives a binary string, one character per byte, or throws; it
  is a parameter here. The loop copies the character codes into a new byte array of the
  same length.
\<close>

function decode_loop :: "string \<Rightarrow> nat \<Rightarrow> byte list \<Rightarrow> byte list" where
  "decode_loop binaryString i bytes =
     (if i < length binaryString
      then decode_loop binaryString (Suc i) (bytes[i := of_char (binaryString ! i)])
      else bytes)"
  by pat_completeness auto
termination
  by (relation "measure (\<lambda>(binaryString, i, bytes). length binaryString - i)") auto

declare decode_loop.simps [simp del]

definition decode :: "(string \<Rightarrow> string option) \<Rightarrow> string \<Rightarrow> playback_error + byte list" where
  "decode atob b64 =
     (case atob b64 of
        None \<Rightarrow> Inl InvalidCharacterError
      | Some binaryString \<Rightarrow>
          Inr (decode_loop binaryString 0 (replicate (length binaryString) 0)))"

text \<open>
  \<^verbatim>\<open>new Int16Array(data.buffer)\<close> views the bytes two by two in the byte order of the
  platform, which is little-endian on every platform the browsers run on: the first byte
  of a pair is the low byte. The view does not exist over an odd number of bytes.
\<close>

fun int16_elements :: "byte list \<Rightarrow> int16 list" where
  "int16_elements (lo # hi # rest) = word_cat hi lo # int16_elements rest"
| "int16_elements _ = []"

definition new_Int16Array :: "byte list \<Rightarrow> playback_error + int16 list" where
  "new_Int16Array buffer =
     (if odd (length buffer) then Inl RangeError else Inr (int16_elements buffer))"

text \<open>
  An audio buffer of one channel. Its samples are 32-bit floats; the quotient of a 16-bit
  integer by 32768 is such a float exactly, so the samples are real numbers here and the
  store into the channel rounds nothing. A new buffer holds zeros.
\<close>

record AudioBuffer =
  sampleRate :: nat
  channelData :: "real list"

definition createBuffer :: "nat \<Rightarrow> nat \<Rightarrow> playback_error + AudioBuffer" where
  "createBuffer frameCount rate =
     (if frameCount = 0 then Inl NotSupportedError
      else Inr \<lparr>sampleRate = rate, channelData = replicate frameCount 0\<rparr>)"

function decodeAudioData_loop :: "int16 list \<Rightarrow> nat \<Rightarrow> real list \<Rightarrow> real list" where
  "decodeAudioData_loop dataInt16 i channel =
     (if i < length dataInt16
      then decodeAudioData_loop dataInt16 (Suc i)
             (channel[i := real_of_int (sint (dataInt16 ! i)) / 32768])
      else channel)"
  by pat_completeness auto
termination
  by (relation "measure (\<lambda>(dataInt16, i, channel). length dataInt16 - i)") auto

declare decodeAudioData_loop.simps [simp del]

definition decodeAudioData :: "byte list \<Rightarrow> playback_error + AudioBuffer" where
  "decodeAudioData data =
     (case new_Int16Array data of
        Inl e \<Rightarrow> Inl e
      | Inr dataInt16 \<Rightarrow>
          (case createBuffer (length dataInt16) 24000 of
             Inl e \<Rightarrow> Inl e
           | Inr buffer \<Rightarrow>
               Inr (buffer\<lparr>channelData := decodeAudioData_loop dataInt16 0 (channelData buffer)\<rparr>)))"

section \<open>The audio player (playAudio, stopAudio)\<close>

text \<open>
  The state of the player is the two module variables, \<^verbatim>\<open>audioContext\<close> (created or
  not) and \<^verbatim>\<open>currentSource\<close> (a reference to a source node or null), together with
  the source nodes created so far, which are objects of the platform, and the list of the
  completion callbacks invoked so far. A node is referred to by its index in the list of
  nodes; a callback is a number.

  A source node has a buffer, is connected to the destination or not, has been started or
  not, is playing or not, and has an \<^verbatim>\<open>onended\<close> handler or none. The platform
  dispatches an \<^verbatim>\<open>ended\<close> event to a source node when the node stops playing, whether
  its buffer was played to the end or \<^verbatim>\<open>stop()\<close> was called on it; the event is
  delivered later, as a task of its own. \<^verbatim>\<open>ended_pending\<close> says that the event of the
  node is due and not yet delivered.
\<close>

record SourceNode =
  node_buffer :: "AudioBuffer option"
  is_connected :: bool
  started :: bool
  playing :: bool
  ended_pending :: bool
  onended :: "nat option"

record Player =
  audioContext :: bool
  currentSource :: "nat option"
  nodes :: "SourceNode list"
  invoked :: "nat list"

definition initial_player :: Player where
  "initial_player = \<lparr>audioContext = False, currentSource = None, nodes = [], invoked = []\<rparr>"

definition getAudioContext :: "Player \<Rightarrow> Player" where
  "getAudioContext s = (if audioContext s then s else s\<lparr>audioContext := True\<rparr>)"

text \<open>The methods of a source node.\<close>

definition update_node :: "nat \<Rightarrow> (SourceNode \<Rightarrow> SourceNode) \<Rightarrow> Player \<Rightarrow> Player" where
  "update_node i f s = s\<lparr>nodes := (nodes s)[i := f (nodes s ! i)]\<rparr>"

definition node_stop :: "nat \<Rightarrow> Player \<Rightarrow> playback_error + Player" where
  "node_stop i s =
     (if i < length (nodes s) \<and> started (nodes s ! i)
      then Inr (update_node i
             (\<lambda>n. n\<lparr>playing := False, ended_pending := ended_pending n \<or> playing n\<rparr>) s)
      else Inl InvalidStateError)"

definition node_disconnect :: "nat \<Rightarrow> Player \<Rightarrow> Player" where
  "node_disconnect i s = update_node i (\<lambda>n. n\<lparr>is_connected := False\<rparr>) s"

definition createBufferSource :: "Player \<Rightarrow> nat \<times> Player" where
  "createBufferSource s =
     (length (nodes s),
      s\<lparr>nodes := nodes s @
        [\<lparr>node_buffer = None, is_connected = False, started = False, playing = False,
          ended_pending = False, onended = None\<rparr>]\<rparr>)"

definition node_start :: "nat \<Rightarrow> Player \<Rightarrow> Player" where
  "node_start i s = update_node i (\<lambda>n. n\<lparr>started := True, playing := True\<rparr>) s"

text \<open>\<^verbatim>\<open>stopAudio\<close>: nothing when there is no current source.\<close>

definition stopAudio :: "Player \<Rightarrow> playback_error + Player" where
  "stopAudio s =
     (case currentSource s of
        None \<Rightarrow> Inr s
      | Some i \<Rightarrow>
          (case node_stop i s of
             Inl e \<Rightarrow> Inl e
           | Inr s1 \<Rightarrow> Inr ((node_disconnect i s1)\<lparr>currentSource := None\<rparr>)))"

text \<open>
  \<^verbatim>\<open>playAudio\<close> is an async function with one \<^verbatim>\<open>await\<close>. The part before it runs
  at the call: \<^verbatim>\<open>stopAudio()\<close>, \<^verbatim>\<open>getAudioContext()\<close>, \<^verbatim>\<open>decode\<close> and the body of
  \<^verbatim>\<open>decodeAudioData\<close>, which has no \<^verbatim>\<open>await\<close> of its own. An exception there rejects
  the promise of the call. The part after the \<^verbatim>\<open>await\<close> runs later, as a microtask:
  it creates the source, gives it the buffer, connects it, sets the handler, starts it
  and stores it in \<^verbatim>\<open>currentSource\<close>.
\<close>

definition playAudio_begin ::
  "(string \<Rightarrow> string option) \<Rightarrow> string \<Rightarrow> Player \<Rightarrow> Player \<times> (playback_error + AudioBuffer)" where
  "playAudio_begin atob b64 s =
     (case stopAudio s of
        Inl e \<Rightarrow> (s, Inl e)
      | Inr s1 \<Rightarrow>
          (let s2 = getAudioContext s1
           in case decode atob b64 of
                Inl e \<Rightarrow> (s2, Inl e)
              | Inr rawAudio \<Rightarrow> (s2, decodeAudioData rawAudio)))"

text \<open>The handler that \<^verbatim>\<open>playAudio\<close> installs: it clears \<^verbatim>\<open>currentSource\<close> and calls \<^verbatim>\<open>onEnded\<close>.\<close>

definition ended_handler :: "nat \<Rightarrow> Player \<Rightarrow> Player" where
  "ended_handler onEnded s = s\<lparr>currentSource := None, invoked := invoked s @ [onEnded]\<rparr>"

definition playAudio_resume :: "nat \<Rightarrow> AudioBuffer \<Rightarrow> Player \<Rightarrow> Player" where
  "playAudio_resume onEnded audioBuffer s =
     (case createBufferSource s of
        (source, s1) \<Rightarrow>
          (let s2 = update_node source (\<lambda>n. n\<lparr>node_buffer := Some audioBuffer\<rparr>) s1;
               s3 = update_node source (\<lambda>n. n\<lparr>is_connected := True\<rparr>) s2;
               s4 = update_node source (\<lambda>n. n\<lparr>onended := Some onEnded\<rparr>) s3;
               s5 = node_start source s4
           in s5\<lparr>currentSource := Some source\<rparr>))"

text \<open>
  A call of \<^verbatim>\<open>playAudio\<close> that runs to its end before anything else happens: the
  state after it, and the exception that rejected it, if any.
\<close>

definition playAudio ::
  "(string \<Rightarrow> string option) \<Rightarrow> string \<Rightarrow> nat \<Rightarrow> Player \<Rightarrow> Player \<times> playback_error option" where
  "playAudio atob b64 onEnded s =
     (case playAudio_begin atob b64 s of
        (s1, Inl e) \<Rightarrow> (s1, Some e)
      | (s1, Inr audioBuffer) \<Rightarrow> (playAudio_resume onEnded audioBuffer s1, None))"


text \<open>
  What the platform does to a node. \<^verbatim>\<open>playback_finished\<close>: a playing node has played
  its buffer to the end; it stops playing and its \<^verbatim>\<open>ended\<close> event is due.
  \<^verbatim>\<open>deliver_ended\<close>: the event that is due is delivered, which runs the handler of the
  node, if it has one.
\<close>

definition playback_finished :: "nat \<Rightarrow> Player \<Rightarrow> Player" where
  "playback_finished i s =
     (if i < length (nodes s) \<and> playing (nodes s ! i)
      then update_node i (\<lambda>n. n\<lparr>playing := False, ended_pending := True\<rparr>) s
      else s)"

definition dispatch_ended :: "nat \<Rightarrow> Player \<Rightarrow> Player" where
  "dispatch_ended i s =
     (case onended (nodes s ! i) of None \<Rightarrow> s | Some onEnded \<Rightarrow> ended_handler onEnded s)"

definition deliver_ended :: "nat \<Rightarrow> Player \<Rightarrow> Player" where
  "deliver_ended i s =
     (if i < length (nodes s) \<and> ended_pending (nodes s ! i)
      then dispatch_ended i (update_node i (\<lambda>n. n\<lparr>ended_pending := False\<rparr>) s)
      else s)"

text \<open>
  The player in use: a sequence of calls that run to their end, and of events of the
  platform. A call that throws leaves the state it reached.
\<close>

datatype action = PlayAudio string nat | StopAudio | PlaybackFinished nat | EndedEvent nat

fun step :: "(string \<Rightarrow> string option) \<Rightarrow> Player \<Rightarrow> action \<Rightarrow> Player" where
  "step atob s (PlayAudio b64 onEnded) = fst (playAudio atob b64 onEnded s)"
| "step atob s StopAudio = (case stopAudio s of Inl e \<Rightarrow> s | Inr s' \<Rightarrow> s')"
| "step atob s (PlaybackFinished i) = playback_finished i s"
| "step atob s (EndedEvent i) = deliver_ended i s"

definition run :: "(string \<Rightarrow> string option) \<Rightarrow> action list \<Rightarrow> Player" where
  "run atob acts = foldl (step atob) initial_player acts"

section \<open>Vocabulary of the statements about the pipeline\<close>

text \<open>
  The definitions of this section are not code of the repository: they name what the
  statements below talk about. \<open>structure_of\<close> forgets the media of a storyboard.
  \<open>clip_sequence\<close> lists the clips of a structure in iteration order (scene by scene),
  each with the number of its scene, and \<open>iterations\<close> numbers them from 1, as
  \<^verbatim>\<open>++clipCount\<close> does. \<open>safe_numbers\<close> says that the scene and clip numbers of a
  structure are in the range where a template string prints a number as its decimal
  digits.
\<close>

definition structure_of :: "Storyboard \<Rightarrow> StoryboardStructure" where
  "structure_of sb =
     map (\<lambda>s. \<lparr>scene = scene s, clips = map StoryboardStructureClip.truncate (clips s)\<rparr>) sb"

definition clip_sequence :: "StoryboardStructure \<Rightarrow> (int \<times> StoryboardStructureClip) list" where
  "clip_sequence st = concat (map (\<lambda>s. map (Pair (scene s)) (clips s)) st)"

definition iterations :: "StoryboardStructure \<Rightarrow> (nat \<times> int \<times> StoryboardStructureClip) list" where
  "iterations st = enumerate 1 (clip_sequence st)"

definition safe_numbers :: "StoryboardStructure \<Rightarrow> bool" where
  "safe_numbers st =
     list_all (\<lambda>s. safe_integer (scene s) \<and> list_all (\<lambda>c. safe_integer (clip c)) (clips s)) st"

text \<open>
  Reading decimal digits back: the number a string of digits denotes, and the integer a
  string of digits with an optional minus sign denotes. The statements use them to say
  which numbers a message carries.
\<close>

definition digit_value :: "char \<Rightarrow> nat" where
  "digit_value ch = of_char ch - 48"

definition read_nat :: "string \<Rightarrow> nat" where
  "read_nat ds = foldl (\<lambda>a ch. 10 * a + digit_value ch) 0 ds"


text \<open>
  \<open>clip_events\<close> is what one iteration shows: its progress message, written out here
  with the scene number, the clip number, the counter and the total, and then its two
  requests. \<open>media_outcome\<close> is the joined outcome of the two requests of an iteration.
  \<open>media_ok\<close> says that both requests returned a response with a non-empty payload,
  \<open>payload_missing\<close> that both returned a response and one of the two has no payload
  (or an empty one), and \<open>iteration_error\<close> is the error an iteration that is not
  \<open>media_ok\<close> ends the run with. \<open>attempted\<close> counts the iterations a run enters (all
  of them, or up to and including the first that is not \<open>media_ok\<close>) and
  \<open>first_failure\<close> is the error of that iteration, if there is one.
\<close>

fun clip_events :: "FormData \<Rightarrow> nat \<Rightarrow> nat \<times> int \<times> StoryboardStructureClip \<Rightarrow> event list" where
  "clip_events formData totalClips (n, sceneNo, c) =
     [Progress (''Membuat visual & audio untuk adegan '' @ show_int sceneNo @ '', klip '' @
                show_int (clip c) @ ''... ('' @ show_nat n @ ''/'' @ show_nat totalClips @ '')''),
      ImageRequest (imageParts formData c),
      AudioRequest (narration c)]"

fun media_outcome ::
  "FormData \<Rightarrow> Backend \<Rightarrow> nat \<times> int \<times> StoryboardStructureClip \<Rightarrow>
   error + GenerateContentResponse \<times> GenerateContentResponse" where
  "media_outcome formData be (n, sceneNo, c) =
     Promise_all (generateImage be n (imageParts formData c)) (generateAudio be n (narration c))
       (audioSettlesFirst be n)"

fun media_ok :: "FormData \<Rightarrow> Backend \<Rightarrow> nat \<times> int \<times> StoryboardStructureClip \<Rightarrow> bool" where
  "media_ok formData be (n, sceneNo, c) =
     (case media_outcome formData be (n, sceneNo, c) of
        Inl e \<Rightarrow> False
      | Inr (i, a) \<Rightarrow> \<not> falsy (findInlineData i) \<and> \<not> falsy (findInlineData a))"


fun iteration_error :: "FormData \<Rightarrow> Backend \<Rightarrow> nat \<times> int \<times> StoryboardStructureClip \<Rightarrow> error" where
  "iteration_error formData be (n, sceneNo, c) =
     (case media_outcome formData be (n, sceneNo, c) of
        Inl e \<Rightarrow> e
      | Inr _ \<Rightarrow> Error (clip_error_message (clip c) sceneNo))"

fun generated_clip :: "FormData \<Rightarrow> Backend \<Rightarrow> nat \<times> int \<times> StoryboardStructureClip \<Rightarrow> Clip" where
  "generated_clip formData be (n, sceneNo, c) =
     (case media_outcome formData be (n, sceneNo, c) of
        Inr (i, a) \<Rightarrow>
          \<lparr>clip = clip c, narration = narration c, prompt = prompt c,
           image = ''data:image/png;base64,'' @ the (findInlineData i),
           audio = the (findInlineData a)\<rparr>)"

fun attempted :: "FormData \<Rightarrow> Backend \<Rightarrow> (nat \<times> int \<times> StoryboardStructureClip) list \<Rightarrow> nat" where
  "attempted formData be [] = 0"
| "attempted formData be (x # xs) =
     (if media_ok formData be x then Suc (attempted formData be xs) else 1)"

fun first_failure :: "FormData \<Rightarrow> Backend \<Rightarrow> (nat \<times> int \<times> StoryboardStructureClip) list \<Rightarrow> error option" where
  "first_failure formData be [] = None"
| "first_failure formData be (x # xs) =
     (if media_ok formData be x then first_failure formData be xs
      else Some (iteration_error formData be x))"

abbreviation structure_reply :: "FormData \<Rightarrow> Backend \<Rightarrow> error + StructureReply" where
  "structure_reply fd be \<equiv>
     generateStructure be (title fd) (description fd) (style fd) (orientation (aspectRatio fd))"

abbreviation opening_events :: "FormData \<Rightarrow> event list" where
  "opening_events fd \<equiv>
     [Progress ''Menganalisis cerita dan karakter...'',
      StructureRequest (title fd) (description fd) (style fd) (orientation (aspectRatio fd))]"

section \<open>Vocabulary of the statements about the audio player\<close>

text \<open>
  The sample that two bytes stand for, as the statements say it: the unsigned number
  \<open>lo + 256 * hi\<close>, read as a signed number of 16 bits.
\<close>

definition sample16 :: "byte \<Rightarrow> byte \<Rightarrow> int" where
  "sample16 lo hi =
     (let u = uint lo + 256 * uint hi in if u < 32768 then u else u - 65536)"


text \<open>
  \<open>source_started\<close>: the current source, if there is one, is a node that was started.
  \<open>well_formed\<close>: moreover, any source that is playing is the current source.
\<close>

definition source_started :: "Player \<Rightarrow> bool" where
  "source_started s \<longleftrightarrow>
     (case currentSource s of
        None \<Rightarrow> True
      | Some i \<Rightarrow> i < length (nodes s) \<and> started (nodes s ! i))"



section \<open>Test doubles\<close>

text \<open>
  A fake service for the closed examples: it answers the structure request with a given
  structure, and every media request with a response carrying one inline payload, except
  that the image response of iteration \<open>k\<close> has an empty candidate list (\<open>k = 0\<close>: no
  iteration is affected). A second fake service answers every image request with a
  response that has no payload and rejects every audio request.
\<close>

definition inline_response :: "string \<Rightarrow> GenerateContentResponse" where
  "inline_response d =
     GenerateContentResponse (Some [Candidate (Some (Content (Some [Part (Some (Blob (Some d) None)) None])))])"

definition empty_response :: GenerateContentResponse where
  "empty_response = GenerateContentResponse (Some [])"

definition fake_backend :: "StoryboardStructure \<Rightarrow> nat \<Rightarrow> Backend" where
  "fake_backend st k =
     \<lparr>generateStructure = (\<lambda>t d s orient. Inr (Decoded st)),
      generateImage = (\<lambda>n ps. Inr (if n = k then empty_response else inline_response ''aW1n'')),
      generateAudio = (\<lambda>n narr. Inr (inline_response ''AAD/fw=='')),
      audioSettlesFirst = (\<lambda>n. False)\<rparr>"


definition demo_formData :: FormData where
  "demo_formData =
     \<lparr>title = ''T'', description = ''D'', style = Style2D, aspectRatio = Portrait_9_16,
      character1 = None, character2 = None\<rparr>"

definition demo_clip :: "int \<Rightarrow> StoryboardStructureClip" where
  "demo_clip k = \<lparr>clip = k, narration = ''n'', prompt = ''p''\<rparr>"

definition two_by_three :: StoryboardStructure where
  "two_by_three =
     [\<lparr>scene = 1, clips = [demo_clip 1, demo_clip 2, demo_clip 3]\<rparr>,
      \<lparr>scene = 2, clips = [demo_clip 1, demo_clip 2, demo_clip 3]\<rparr>]"

definition three_clips :: StoryboardStructure where
  "three_clips =
     [\<lparr>scene = 1, clips = [demo_clip 1, demo_clip 2]\<rparr>,
      \<lparr>scene = 2, clips = [demo_clip 1]\<rparr>]"

definition one_by_two :: StoryboardStructure where
  "one_by_two = [\<lparr>scene = 1, clips = [demo_clip 1, demo_clip 2]\<rparr>]"

definition demo_storyboard :: Storyboard where
  "demo_storyboard =
     [\<lparr>scene = 1, clips =
        [\<lparr>clip = 1, narration = ''n'', prompt = ''p'',
          image = ''data:image/png;base64,aW1n'', audio = ''AAD/fw==''\<rparr>,
         \<lparr>clip = 2, narration = ''n'', prompt = ''p'',
          image = ''data:image/png;base64,aW1n'', audio = ''AAD/fw==''\<rparr>]\<rparr>]"


definition unparseable_backend :: Backend where
  "unparseable_backend =
     \<lparr>generateStructure = (\<lambda>t d s orient. Inr NotJSON),
      generateImage = (\<lambda>n ps. Inl (Rejected ''unused'')),
      generateAudio = (\<lambda>n narr. Inl (Rejected ''unused'')),
      audioSettlesFirst = (\<lambda>n. False)\<rparr>"




text \<open>
  A stand-in for \<^verbatim>\<open>atob\<close> that knows three texts: the base64 of the four bytes
  \<open>00 00 FF 7F\<close>, the base64 of the three bytes \<open>00 00 FF\<close>, and the empty text; it
  rejects any other.
\<close>

definition fake_atob :: "string \<Rightarrow> string option" where
  "fake_atob b64 =
     (if b64 = ''AAD/fw=='' then Some [CHR 0x00, CHR 0x00, CHR 0xFF, CHR 0x7F]
      else if b64 = ''AAD/'' then Some [CHR 0x00, CHR 0x00, CHR 0xFF]
      else if b64 = [] then Some []
      else None)"

section \<open>Properties of the payload extraction\<close>

lemma findInlineData_loop_none:
  "\<forall>p \<in> set ps. inlineData p = None \<Longrightarrow> findInlineData_loop ps = None"
  by (induction ps) auto

lemma findInlineData_loop_first:
  "\<forall>p \<in> set pre. inlineData p = None \<Longrightarrow> inlineData q = Some b \<Longrightarrow>
   findInlineData_loop (pre @ q # post) = blob_data b"
  by (induction pre) auto

section \<open>The loops as one pass over the iterations\<close>

lemma show_nat_numeral [simp]:
  "show_nat (numeral k) =
     (if (numeral k :: nat) < 10 then [digit_char (numeral k)]
      else show_nat (numeral k div 10) @ [digit_char (numeral k mod 10)])"
  by (rule show_nat.simps)

lemma show_nat_0 [simp]: "show_nat 0 = ''0''"
  by (simp add: show_nat.simps digit_char_def)

lemma show_nat_1 [simp]: "show_nat (Suc 0) = ''1''"
  by (simp add: show_nat.simps digit_char_def)

lemma attempted_append:
  "attempted fd be (xs @ ys) =
     (if first_failure fd be xs = None then length xs + attempted fd be ys else attempted fd be xs)"
  by (induction xs) auto

lemma first_failure_append:
  "first_failure fd be (xs @ ys) =
     (case first_failure fd be xs of None \<Rightarrow> first_failure fd be ys | Some e \<Rightarrow> Some e)"
  by (induction xs) auto

lemma attempted_le: "attempted fd be xs \<le> length xs"
  by (induction xs) auto

lemma attempted_all: "first_failure fd be xs = None \<Longrightarrow> attempted fd be xs = length xs"
  by (induction xs) (auto split: if_splits)

lemma clips_loop_trace:
  "fst (clips_loop fd be T sc cs tr n gen) =
     tr @ concat (map (clip_events fd T)
       (take (attempted fd be (enumerate (Suc n) (map (Pair sc) cs)))
          (enumerate (Suc n) (map (Pair sc) cs))))"
proof (induction cs arbitrary: tr n gen)
  case Nil
  then show ?case by simp
next
  case (Cons c cs)
  show ?case
    by (auto simp: Let_def Cons.IH clip_progress_message_def split: sum.splits prod.splits)
qed

lemma clips_loop_result:
  "snd (clips_loop fd be T sc cs tr n gen) =
     (case first_failure fd be (enumerate (Suc n) (map (Pair sc) cs)) of
        Some e \<Rightarrow> Inl e
      | None \<Rightarrow> Inr (n + length cs,
          gen @ map (generated_clip fd be) (enumerate (Suc n) (map (Pair sc) cs))))"
proof (induction cs arbitrary: tr n gen)
  case Nil
  then show ?case by simp
next
  case (Cons c cs)
  show ?case
    by (auto simp: Let_def Cons.IH split: sum.splits prod.splits option.splits)
qed

lemma enumerate_clip_sequence_Cons:
  "enumerate n (clip_sequence (s # ss)) =
     enumerate n (map (Pair (scene s)) (clips s)) @
     enumerate (n + length (clips s)) (clip_sequence ss)"
  by (simp add: clip_sequence_def enumerate_append_eq)

lemma scenes_loop_trace:
  "fst (scenes_loop fd be T st tr n fin) =
     tr @ concat (map (clip_events fd T)
       (take (attempted fd be (enumerate (Suc n) (clip_sequence st)))
          (enumerate (Suc n) (clip_sequence st))))"
proof (induction st arbitrary: tr n fin)
  case Nil
  then show ?case by (simp add: clip_sequence_def)
next
  case (Cons s ss)
  let ?its = "enumerate (Suc n) (map (Pair (scene s)) (clips s))"
  obtain tr' r where cl: "clips_loop fd be T (scene s) (clips s) tr n [] = (tr', r)"
    by (cases "clips_loop fd be T (scene s) (clips s) tr n []")
  have tr': "tr' = tr @ concat (map (clip_events fd T) (take (attempted fd be ?its) ?its))"
    using clips_loop_trace [of fd be T "scene s" "clips s" tr n "[]"] cl by simp
  have r: "r = (case first_failure fd be ?its of Some e \<Rightarrow> Inl e
      | None \<Rightarrow> Inr (n + length (clips s), map (generated_clip fd be) ?its))"
    using clips_loop_result [of fd be T "scene s" "clips s" tr n "[]"] cl
    by (simp split: option.splits)
  show ?case
  proof (cases "first_failure fd be ?its")
    case None
    then show ?thesis
      using cl tr' r Cons.IH
      by (simp add: enumerate_clip_sequence_Cons attempted_append attempted_all)
  next
    case (Some e)
    then show ?thesis
      using cl tr' r attempted_le [of fd be ?its]
      by (simp add: enumerate_clip_sequence_Cons attempted_append)
  qed
qed


lemma truncate_generated_clip:
  "media_ok fd be x \<Longrightarrow> StoryboardStructureClip.truncate (generated_clip fd be x) = snd (snd x)"
  by (cases x) (auto simp: StoryboardStructureClip.truncate_def split: sum.splits)


lemma truncate_generated_clips:
  "first_failure fd be (enumerate m (map (Pair sc) cs)) = None \<Longrightarrow>
   map StoryboardStructureClip.truncate
     (map (generated_clip fd be) (enumerate m (map (Pair sc) cs))) = cs"
proof (induction cs arbitrary: m)
  case Nil
  then show ?case by simp
next
  case (Cons c cs)
  from Cons.prems have ok: "media_ok fd be (m, sc, c)"
    and rest: "first_failure fd be (enumerate (Suc m) (map (Pair sc) cs)) = None"
    by (auto simp del: media_ok.simps split: if_splits)
  show ?case
    using truncate_generated_clip [OF ok] Cons.IH [OF rest]
    by (simp del: generated_clip.simps)
qed

lemma structure_of_append: "structure_of (xs @ ys) = structure_of xs @ structure_of ys"
  by (simp add: structure_of_def)

lemma scenes_loop_fail:
  "first_failure fd be (enumerate (Suc n) (clip_sequence st)) = Some e \<Longrightarrow>
   snd (scenes_loop fd be T st tr n fin) = Inl e"
proof (induction st arbitrary: tr n fin)
  case Nil
  then show ?case by (simp add: clip_sequence_def)
next
  case (Cons s ss)
  let ?its = "enumerate (Suc n) (map (Pair (scene s)) (clips s))"
  obtain tr' r where cl: "clips_loop fd be T (scene s) (clips s) tr n [] = (tr', r)"
    by (cases "clips_loop fd be T (scene s) (clips s) tr n []")
  have r: "r = (case first_failure fd be ?its of Some e \<Rightarrow> Inl e
      | None \<Rightarrow> Inr (n + length (clips s), map (generated_clip fd be) ?its))"
    using clips_loop_result [of fd be T "scene s" "clips s" tr n "[]"] cl
    by (simp split: option.splits)
  show ?case
  proof (cases "first_failure fd be ?its")
    case None
    then show ?thesis
      using cl r Cons.IH Cons.prems
      by (simp add: enumerate_clip_sequence_Cons first_failure_append)
  next
    case (Some e')
    then show ?thesis
      using cl r Cons.prems
      by (simp add: enumerate_clip_sequence_Cons first_failure_append)
  qed
qed

lemma scenes_loop_ok:
  "first_failure fd be (enumerate (Suc n) (clip_sequence st)) = None \<Longrightarrow>
   \<exists>sb. snd (scenes_loop fd be T st tr n fin) = Inr (n + length (clip_sequence st), sb) \<and>
        structure_of sb = structure_of fin @ st"
proof (induction st arbitrary: tr n fin)
  case Nil
  then show ?case by (simp add: clip_sequence_def structure_of_def)
next
  case (Cons s ss)
  let ?its = "enumerate (Suc n) (map (Pair (scene s)) (clips s))"
  let ?gen = "map (generated_clip fd be) ?its"
  obtain tr' r where cl: "clips_loop fd be T (scene s) (clips s) tr n [] = (tr', r)"
    by (cases "clips_loop fd be T (scene s) (clips s) tr n []")
  have ff1: "first_failure fd be ?its = None"
    and ff2: "first_failure fd be (enumerate (Suc (n + length (clips s))) (clip_sequence ss)) = None"
    using Cons.prems
    by (auto simp: enumerate_clip_sequence_Cons first_failure_append split: option.splits)
  have r: "r = Inr (n + length (clips s), ?gen)"
    using clips_loop_result [of fd be T "scene s" "clips s" tr n "[]"] cl ff1 by simp
  have len: "length (clip_sequence (s # ss)) = length (clips s) + length (clip_sequence ss)"
    by (simp add: clip_sequence_def)
  have so: "structure_of [\<lparr>scene = scene s, clips = ?gen\<rparr>] = [s]"
    using truncate_generated_clips [OF ff1] by (simp add: structure_of_def)
  from Cons.IH [OF ff2, of tr' "fin @ [\<lparr>scene = scene s, clips = ?gen\<rparr>]"]
  obtain sb where
    sb: "snd (scenes_loop fd be T ss tr' (n + length (clips s))
           (fin @ [\<lparr>scene = scene s, clips = ?gen\<rparr>])) =
         Inr (n + length (clips s) + length (clip_sequence ss), sb)"
    and st: "structure_of sb = structure_of (fin @ [\<lparr>scene = scene s, clips = ?gen\<rparr>]) @ ss"
    by blast
  have "snd (scenes_loop fd be T (s # ss) tr n fin) = Inr (n + length (clip_sequence (s # ss)), sb)"
    using cl r sb len by (simp add: add.assoc)
  moreover have "structure_of sb = structure_of fin @ s # ss"
    using st so by (simp add: structure_of_append)
  ultimately show ?case by blast
qed

lemma totalClips_of_eq: "totalClips_of st = length (clip_sequence st)"
proof -
  have "foldl (\<lambda>acc s. acc + length (clips s)) a st = a + length (clip_sequence st)" for a
    by (induction st arbitrary: a) (simp_all add: clip_sequence_def)
  then show ?thesis by (simp add: totalClips_of_def)
qed

lemma length_iterations: "length (iterations st) = totalClips_of st"
  by (simp add: iterations_def totalClips_of_eq)

lemma generateStoryboard_trace:
  assumes "generateStructure be (title fd) (description fd) (style fd)
             (orientation (aspectRatio fd)) = Inr (Decoded st)"
  shows "fst (generateStoryboard fd be) =
     [Progress msg_analysing,
      StructureRequest (title fd) (description fd) (style fd) (orientation (aspectRatio fd)),
      Progress msg_visuals] @
     concat (map (clip_events fd (totalClips_of st))
       (take (attempted fd be (iterations st)) (iterations st))) @
     (if first_failure fd be (iterations st) = None then [Progress msg_done] else [])"
proof -
  let ?T = "totalClips_of st"
  let ?tr1 = "[Progress msg_analysing,
      StructureRequest (title fd) (description fd) (style fd) (orientation (aspectRatio fd))] @
      [Progress msg_visuals]"
  obtain tr r where sl: "scenes_loop fd be ?T st ?tr1 0 [] = (tr, r)"
    by (cases "scenes_loop fd be ?T st ?tr1 0 []")
  have tr: "tr = ?tr1 @ concat (map (clip_events fd ?T)
       (take (attempted fd be (iterations st)) (iterations st)))"
    using scenes_loop_trace [of fd be ?T st ?tr1 0 "[]"] sl by (simp add: iterations_def)
  show ?thesis
  proof (cases "first_failure fd be (iterations st)")
    case None
    then obtain sb where "r = Inr (length (clip_sequence st), sb)"
      using scenes_loop_ok [of fd be 0 st ?T ?tr1 "[]"] sl by (auto simp: iterations_def)
    then show ?thesis
      using assms sl tr None by (simp add: generateStoryboard_def)
  next
    case (Some e)
    then have "r = Inl e"
      using scenes_loop_fail [of fd be 0 st e ?T ?tr1 "[]"] sl by (simp add: iterations_def)
    then show ?thesis
      using assms sl tr Some by (simp add: generateStoryboard_def)
  qed
qed

lemma generateStoryboard_result:
  assumes "generateStructure be (title fd) (description fd) (style fd)
             (orientation (aspectRatio fd)) = Inr (Decoded st)"
  shows "case first_failure fd be (iterations st) of
           Some e \<Rightarrow> snd (generateStoryboard fd be) = Inl e
         | None \<Rightarrow> (\<exists>sb. snd (generateStoryboard fd be) = Inr sb \<and> structure_of sb = st)"
proof -
  let ?T = "totalClips_of st"
  let ?tr1 = "[Progress msg_analysing,
      StructureRequest (title fd) (description fd) (style fd) (orientation (aspectRatio fd))] @
      [Progress msg_visuals]"
  obtain tr r where sl: "scenes_loop fd be ?T st ?tr1 0 [] = (tr, r)"
    by (cases "scenes_loop fd be ?T st ?tr1 0 []")
  show ?thesis
  proof (cases "first_failure fd be (iterations st)")
    case None
    then obtain sb where "r = Inr (length (clip_sequence st), sb)" "structure_of sb = st"
      using scenes_loop_ok [of fd be 0 st ?T ?tr1 "[]"] sl
      by (auto simp: iterations_def structure_of_def)
    then show ?thesis
      using assms sl None by (simp add: generateStoryboard_def)
  next
    case (Some e)
    then have "r = Inl e"
      using scenes_loop_fail [of fd be 0 st e ?T ?tr1 "[]"] sl by (simp add: iterations_def)
    then show ?thesis
      using assms sl Some by (simp add: generateStoryboard_def)
  qed
qed


lemma structure_of_fields:
  assumes "structure_of sb = st"
  shows "length sb = length st"
    and "map scene sb = map scene st"
    and "map (\<lambda>s. length (clips s)) sb = map (\<lambda>s. length (clips s)) st"
    and "map (\<lambda>s. map clip (clips s)) sb = map (\<lambda>s. map clip (clips s)) st"
    and "map (\<lambda>s. map narration (clips s)) sb = map (\<lambda>s. map narration (clips s)) st"
    and "map (\<lambda>s. map prompt (clips s)) sb = map (\<lambda>s. map prompt (clips s)) st"
  unfolding assms [symmetric] structure_of_def
  by (simp_all add: comp_def StoryboardStructureClip.truncate_def)

section \<open>Decimal notation\<close>

lemma less_10_cases:
  "(d::nat) < 10 \<Longrightarrow> d \<in> {0, 1, 2, 3, 4, 5, 6, 7, 8, 9}"
  by auto

lemma digit_value_digit_char: "d < 10 \<Longrightarrow> digit_value (digit_char d) = d"
  using less_10_cases [of d] by (auto simp: digit_value_def digit_char_def)


lemma read_nat_snoc: "read_nat (ds @ [ch]) = 10 * read_nat ds + digit_value ch"
  by (simp add: read_nat_def)

lemma read_nat_show_nat: "read_nat (show_nat n) = n"
proof (induction n rule: show_nat.induct)
  case (1 n)
  show ?case
  proof (cases "n < 10")
    case True
    then show ?thesis
      by (subst show_nat.simps) (simp add: read_nat_def digit_value_digit_char)
  next
    case False
    then have "read_nat (show_nat n) = 10 * read_nat (show_nat (n div 10)) + digit_value (digit_char (n mod 10))"
      by (subst show_nat.simps) (simp add: read_nat_snoc)
    also have "\<dots> = 10 * (n div 10) + n mod 10"
      using 1 False by (simp add: digit_value_digit_char)
    finally show ?thesis by simp
  qed
qed











section \<open>Properties of the audio decoding\<close>

lemma sint_int16: "sint (w :: int16) = (if uint w < 32768 then uint w else uint w - 65536)"
proof -
  have b: "0 \<le> uint w" "uint w < 65536"
    using uint_bounded [of w] by simp_all
  have "sint w = take_bit 16 (uint w + 2 ^ 15) - 2 ^ 15"
    by (simp add: sint_uint signed_take_bit_eq_take_bit_shift)
  then have s: "sint w = (uint w + 32768) mod 65536 - 32768"
    by (simp add: take_bit_eq_mod)
  show ?thesis
  proof (cases "uint w < 32768")
    case True
    then have "(uint w + 32768) mod 65536 = uint w + 32768"
      using b by (intro mod_pos_pos_trivial) linarith+
    then show ?thesis using s True by simp
  next
    case False
    have e: "uint w + 32768 = uint w - 32768 + 65536"
      by linarith
    have "(uint w + 32768) mod 65536 = (uint w - 32768) mod 65536"
      unfolding e by (rule mod_add_self2)
    also have "\<dots> = uint w - 32768"
      using b False by (intro mod_pos_pos_trivial) linarith+
    finally show ?thesis using s False by simp
  qed
qed

lemma uint_word_cat_bytes:
  "uint (word_cat hi lo :: int16) = uint (hi :: byte) * 256 + uint (lo :: byte)"
proof -
  have h: "0 \<le> uint hi" "uint hi < 256" and l: "0 \<le> uint lo" "uint lo < 256"
    using uint_bounded [of hi] uint_bounded [of lo] by simp_all
  have "uint (word_cat hi lo :: int16) = take_bit 16 (take_bit 8 (uint lo) + push_bit 8 (uint hi))"
    unfolding word_cat_eq' uint_word_of_int_eq concat_bit_eq by simp
  also have "take_bit 8 (uint lo) = uint lo"
    using l by (simp add: take_bit_int_eq_self)
  also have "push_bit 8 (uint hi) = uint hi * 256"
    by (simp add: push_bit_eq_mult)
  also have "take_bit 16 (uint lo + uint hi * 256) = (uint lo + uint hi * 256) mod 65536"
    by (simp add: take_bit_eq_mod)
  also have "\<dots> = uint lo + uint hi * 256"
    using h l by (intro mod_pos_pos_trivial) linarith+
  finally show ?thesis by simp
qed

lemma sint_word_cat: "sint (word_cat hi lo :: int16) = sample16 (lo :: byte) (hi :: byte)"
  by (simp add: sint_int16 uint_word_cat_bytes sample16_def Let_def add.commute)

lemma length_int16_elements: "length (int16_elements bs) = length bs div 2"
  by (induction bs rule: int16_elements.induct) simp_all

lemma nth_int16_elements:
  "i < length bs div 2 \<Longrightarrow>
   int16_elements bs ! i = word_cat (bs ! (2 * i + 1)) (bs ! (2 * i))"
proof (induction bs arbitrary: i rule: int16_elements.induct)
  case (1 lo hi rest)
  then show ?case by (cases i) simp_all
qed simp_all

lemma length_decodeAudioData_loop:
  "length (decodeAudioData_loop d i ch) = length ch"
proof (induction d i ch rule: decodeAudioData_loop.induct)
  case (1 d i ch)
  then show ?case
    by (subst decodeAudioData_loop.simps) simp
qed

lemma nth_decodeAudioData_loop:
  "length ch = length d \<Longrightarrow> j < length d \<Longrightarrow>
   decodeAudioData_loop d i ch ! j =
     (if i \<le> j then real_of_int (sint (d ! j)) / 32768 else ch ! j)"
proof (induction d i ch rule: decodeAudioData_loop.induct)
  case (1 d i ch)
  show ?case
  proof (cases "i < length d")
    case True
    have "decodeAudioData_loop d i ch ! j =
        decodeAudioData_loop d (Suc i) (ch[i := real_of_int (sint (d ! i)) / 32768]) ! j"
      using True by (subst decodeAudioData_loop.simps) simp
    also have "\<dots> = (if Suc i \<le> j then real_of_int (sint (d ! j)) / 32768
        else (ch[i := real_of_int (sint (d ! i)) / 32768]) ! j)"
      using 1 True by simp
    also have "\<dots> = (if i \<le> j then real_of_int (sint (d ! j)) / 32768 else ch ! j)"
      using 1(2) True by (cases "i = j") (auto simp: nth_list_update)
    finally show ?thesis .
  next
    case False
    then show ?thesis
      using 1(3) by (subst decodeAudioData_loop.simps) simp
  qed
qed


section \<open>Properties of the audio player\<close>

lemma decode_loop_eq:
  "length bytes = length bin \<Longrightarrow>
   decode_loop bin i bytes = take i bytes @ map of_char (drop i bin)"
proof (induction bin i bytes rule: decode_loop.induct)
  case (1 bin i bytes)
  show ?case
  proof (cases "i < length bin")
    case True
    have "decode_loop bin i bytes = decode_loop bin (Suc i) (bytes[i := of_char (bin ! i)])"
      using True by (subst decode_loop.simps) simp
    also have "\<dots> = take (Suc i) (bytes[i := of_char (bin ! i)]) @ map of_char (drop (Suc i) bin)"
      using 1 True by simp
    also have "\<dots> = take i bytes @ map of_char (drop i bin)"
      using 1(2) True
      by (simp add: take_Suc_conv_app_nth Cons_nth_drop_Suc [symmetric])
    finally show ?thesis .
  next
    case False
    then show ?thesis
      using 1(2) by (subst decode_loop.simps) simp
  qed
qed

lemma decode_Some:
  "atob b64 = Some bin \<Longrightarrow> decode atob b64 = Inr (map of_char bin)"
  by (simp add: decode_def decode_loop_eq)




lemma source_started_iff:
  "source_started s \<longleftrightarrow>
     (\<forall>i. currentSource s = Some i \<longrightarrow> i < length (nodes s) \<and> started (nodes s ! i))"
  by (auto simp: source_started_def split: option.splits)





lemma stopAudio_None: "currentSource s = None \<Longrightarrow> stopAudio s = Inr s"
  by (simp add: stopAudio_def)

lemma stopAudio_Some:
  assumes "currentSource s = Some i" and "i < length (nodes s)" and "started (nodes s ! i)"
  shows "stopAudio s =
     Inr (s\<lparr>nodes := (nodes s)[i := (nodes s ! i)\<lparr>playing := False,
              ended_pending := ended_pending (nodes s ! i) \<or> playing (nodes s ! i),
              is_connected := False\<rparr>],
            currentSource := None\<rparr>)"
  using assms
  by (simp add: stopAudio_def node_stop_def node_disconnect_def update_node_def)

lemma stopAudio_source_started:
  assumes "source_started s"
  shows "\<exists>s'. stopAudio s = Inr s' \<and> source_started s' \<and>
           currentSource s' = None \<and> length (nodes s') = length (nodes s) \<and>
           invoked s' = invoked s \<and> audioContext s' = audioContext s \<and>
           (\<forall>i. currentSource s = Some i \<longrightarrow>
              \<not> playing (nodes s' ! i) \<and> \<not> is_connected (nodes s' ! i))"
proof (cases "currentSource s")
  case None
  then show ?thesis
    using assms by (auto simp: stopAudio_None)
next
  case (Some i)
  then have i: "i < length (nodes s)" "started (nodes s ! i)"
    using assms by (auto simp: source_started_iff)
  show ?thesis
    using Some i
    by (auto simp: stopAudio_Some [OF Some i] source_started_iff)
qed


lemma stopAudio_twice:
  assumes "stopAudio s = Inr s'"
  shows "currentSource s' = None \<and> stopAudio s' = Inr s'"
proof -
  have "currentSource s' = None"
    using assms
    by (auto simp: stopAudio_def node_stop_def split: option.splits sum.splits if_splits)
  then show ?thesis by (simp add: stopAudio_None)
qed

lemma getAudioContext_fields:
  "currentSource (getAudioContext s) = currentSource s"
  "nodes (getAudioContext s) = nodes s"
  "invoked (getAudioContext s) = invoked s"
  "audioContext (getAudioContext s)"
  by (simp_all add: getAudioContext_def)



lemma source_started_getAudioContext: "source_started (getAudioContext s) = source_started s"
  by (simp add: source_started_iff getAudioContext_fields)

lemma playAudio_resume_eq:
  "playAudio_resume onEnded audioBuffer s =
     s\<lparr>nodes := nodes s @
         [\<lparr>node_buffer = Some audioBuffer, is_connected = True, started = True,
           playing = True, ended_pending = False, onended = Some onEnded\<rparr>],
       currentSource := Some (length (nodes s))\<rparr>"
  by (simp add: playAudio_resume_def createBufferSource_def update_node_def node_start_def
      Let_def)



lemma playAudio_resume_source_started: "source_started (playAudio_resume onEnded audioBuffer s)"
  by (simp add: playAudio_resume_eq source_started_iff)

lemma update_node_fields:
  "nodes (update_node i f s) = (nodes s)[i := f (nodes s ! i)]"
  "currentSource (update_node i f s) = currentSource s"
  "invoked (update_node i f s) = invoked s"
  "audioContext (update_node i f s) = audioContext s"
  by (simp_all add: update_node_def)

lemma ended_handler_fields:
  "nodes (ended_handler onEnded s) = nodes s"
  "currentSource (ended_handler onEnded s) = None"
  "invoked (ended_handler onEnded s) = invoked s @ [onEnded]"
  by (simp_all add: ended_handler_def)

lemma dispatch_ended_nodes: "nodes (dispatch_ended i s) = nodes s"
  by (simp add: dispatch_ended_def ended_handler_fields split: option.splits)

lemma dispatch_ended_currentSource:
  "currentSource (dispatch_ended i s) = None \<or> currentSource (dispatch_ended i s) = currentSource s"
  by (simp add: dispatch_ended_def ended_handler_fields split: option.splits)



lemma playback_finished_fields:
  "currentSource (playback_finished i s) = currentSource s"
  "invoked (playback_finished i s) = invoked s"
  "length (nodes (playback_finished i s)) = length (nodes s)"
  "started (nodes (playback_finished i s) ! j) = started (nodes s ! j)"
  "playing (nodes (playback_finished i s) ! j) \<Longrightarrow> playing (nodes s ! j)"
  by (auto simp: playback_finished_def update_node_def nth_list_update split: if_splits)

lemma playback_finished_source_started:
  "source_started s \<Longrightarrow> source_started (playback_finished i s)"
  by (simp add: source_started_iff playback_finished_fields)


lemma deliver_ended_fields:
  "length (nodes (deliver_ended i s)) = length (nodes s)"
  "started (nodes (deliver_ended i s) ! j) = started (nodes s ! j)"
  "playing (nodes (deliver_ended i s) ! j) = playing (nodes s ! j)"
  "currentSource (deliver_ended i s) = None \<or> currentSource (deliver_ended i s) = currentSource s"
  by (auto simp: deliver_ended_def dispatch_ended_def ended_handler_def update_node_def
      nth_list_update split: if_splits option.splits)

lemma deliver_ended_source_started:
  assumes "source_started s"
  shows "source_started (deliver_ended i s)"
  unfolding source_started_iff
proof (intro allI impI)
  fix k assume k: "currentSource (deliver_ended i s) = Some k"
  then have "currentSource s = Some k"
    using deliver_ended_fields(4) [of i s] by simp
  then have "k < length (nodes s) \<and> started (nodes s ! k)"
    using assms unfolding source_started_iff by blast
  then show "k < length (nodes (deliver_ended i s)) \<and> started (nodes (deliver_ended i s) ! k)"
    by (simp add: deliver_ended_fields)
qed


lemma playAudio_begin_source_started:
  assumes "source_started s"
  shows "\<exists>s0. stopAudio s = Inr s0 \<and> fst (playAudio_begin atob b64 s) = getAudioContext s0 \<and>
           snd (playAudio_begin atob b64 s) =
             (case decode atob b64 of Inl e \<Rightarrow> Inl e | Inr rawAudio \<Rightarrow> decodeAudioData rawAudio)"
proof -
  obtain s0 where "stopAudio s = Inr s0"
    using stopAudio_source_started [OF assms] by blast
  then show ?thesis
    by (auto simp: playAudio_begin_def Let_def split: sum.splits)
qed


lemma playAudio_source_started:
  assumes "source_started s"
  shows "source_started (fst (playAudio atob b64 onEnded s))"
proof -
  obtain s0 where s0: "stopAudio s = Inr s0" "source_started s0"
    using stopAudio_source_started [OF assms] by blast
  obtain s1 r where b: "playAudio_begin atob b64 s = (s1, r)"
    by (cases "playAudio_begin atob b64 s")
  have s1: "s1 = getAudioContext s0"
    using playAudio_begin_source_started [OF assms, of atob b64] s0(1) b by simp
  show ?thesis
  proof (cases r)
    case (Inl e)
    then show ?thesis
      using b s1 s0 by (simp add: playAudio_def source_started_getAudioContext)
  next
    case (Inr buf)
    then show ?thesis
      using b by (simp add: playAudio_def playAudio_resume_source_started)
  qed
qed


lemma step_source_started: "source_started s \<Longrightarrow> source_started (step atob s a)"
proof (cases a)
  case (PlayAudio b64 onEnded)
  assume "source_started s"
  then show ?thesis
    using PlayAudio by (simp add: playAudio_source_started)
next
  case StopAudio
  assume "source_started s"
  then show ?thesis
    using StopAudio stopAudio_source_started [of s] by auto
next
  case (PlaybackFinished i)
  assume "source_started s"
  then show ?thesis
    using PlaybackFinished by (simp add: playback_finished_source_started)
next
  case (EndedEvent i)
  assume "source_started s"
  then show ?thesis
    using EndedEvent by (simp add: deliver_ended_source_started)
qed

lemma foldl_step_source_started:
  "source_started s \<Longrightarrow> source_started (foldl (step atob) s acts)"
  by (induction acts arbitrary: s) (simp_all add: step_source_started)

lemma source_started_initial: "source_started initial_player"
  by (simp add: source_started_iff initial_player_def)

lemma run_source_started: "source_started (run atob acts)"
  by (simp add: run_def foldl_step_source_started source_started_initial)




section \<open>Claims about the pipeline\<close>

text \<open>
  Claim C6. For every media response, \<open>findInlineData\<close> returns the data of the first
  part with inline data among the parts of the first candidate, and returns nothing
  (as a value, not as an exception) when the candidate list is absent or empty, when
  the first candidate has no content or its content has no parts, and when no part of
  it carries inline data.
\<close>

theorem findInlineData_first_inline_part:
  "(candidates r = None \<or> candidates r = Some [] \<longrightarrow> findInlineData r = None) \<and>
   (candidates r = Some (c # cs) \<and> (content c = None \<or> content c = Some (Content None)) \<longrightarrow>
      findInlineData r = None) \<and>
   (candidates r = Some (c # cs) \<and> content c = Some (Content (Some ps)) \<and>
      (\<forall>q \<in> set ps. inlineData q = None) \<longrightarrow> findInlineData r = None) \<and>
   (candidates r = Some (c # cs) \<and> content c = Some (Content (Some (pre @ p # post))) \<and>
      (\<forall>q \<in> set pre. inlineData q = None) \<and> inlineData p = Some b \<longrightarrow>
      findInlineData r = blob_data b)"
  by (auto simp: findInlineData_def first_candidate_parts_def findInlineData_loop_none
      findInlineData_loop_first)

theorem findInlineData_first_inline_part_witness:
  "findInlineData (GenerateContentResponse (Some
      [Candidate (Some (Content (Some
         ([Part None (Some ''caption'')] @
          Part (Some (Blob (Some ''QUJD'') (Some ''image/png''))) None #
          [Part (Some (Blob (Some ''REVG'') None)) None])))),
       Candidate (Some (Content (Some [Part (Some (Blob (Some ''R0hJ'') None)) None])))])) =
     Some ''QUJD'' \<and>
   findInlineData (GenerateContentResponse (Some [])) = None \<and>
   findInlineData (GenerateContentResponse (Some [Candidate None])) = None \<and>
   findInlineData (GenerateContentResponse (Some
      [Candidate (Some (Content (Some [Part None (Some ''blocked'')])))])) = None"
  using
    findInlineData_first_inline_part [of "GenerateContentResponse (Some
      [Candidate (Some (Content (Some
         ([Part None (Some ''caption'')] @
          Part (Some (Blob (Some ''QUJD'') (Some ''image/png''))) None #
          [Part (Some (Blob (Some ''REVG'') None)) None])))),
       Candidate (Some (Content (Some [Part (Some (Blob (Some ''R0hJ'') None)) None])))])"
      "Candidate (Some (Content (Some
         ([Part None (Some ''caption'')] @
          Part (Some (Blob (Some ''QUJD'') (Some ''image/png''))) None #
          [Part (Some (Blob (Some ''REVG'') None)) None]))))"
      "[Candidate (Some (Content (Some [Part (Some (Blob (Some ''R0hJ'') None)) None])))]"
      "[]" "[Part None (Some ''caption'')]"
      "Part (Some (Blob (Some ''QUJD'') (Some ''image/png''))) None"
      "[Part (Some (Blob (Some ''REVG'') None)) None]"
      "Blob (Some ''QUJD'') (Some ''image/png'')"]
    findInlineData_first_inline_part [of "GenerateContentResponse (Some [])"]
    findInlineData_first_inline_part [of "GenerateContentResponse (Some [Candidate None])" "Candidate None" "[]"]
    findInlineData_first_inline_part [of "GenerateContentResponse (Some
      [Candidate (Some (Content (Some [Part None (Some ''blocked'')])))])"
      "Candidate (Some (Content (Some [Part None (Some ''blocked'')])))" "[]"
      "[Part None (Some ''blocked'')]"]
  by simp

text \<open>
  Claim C3. If the structure was decoded and the run returns a storyboard, then the
  storyboard without its media is the structure: the same number of scenes, the same
  scene numbers in the same order, the same number of clips in each scene, and the same
  clip numbers, narrations and prompts in the same order.
\<close>

theorem storyboard_keeps_the_structure:
  assumes "structure_reply fd be = Inr (Decoded st)"
    and "snd (generateStoryboard fd be) = Inr sb"
  shows "structure_of sb = st \<and>
         length sb = length st \<and>
         map scene sb = map scene st \<and>
         map (\<lambda>s. length (clips s)) sb = map (\<lambda>s. length (clips s)) st \<and>
         map (\<lambda>s. map clip (clips s)) sb = map (\<lambda>s. map clip (clips s)) st \<and>
         map (\<lambda>s. map narration (clips s)) sb = map (\<lambda>s. map narration (clips s)) st \<and>
         map (\<lambda>s. map prompt (clips s)) sb = map (\<lambda>s. map prompt (clips s)) st"
proof -
  have "structure_of sb = st"
    using generateStoryboard_result [OF assms(1)] assms(2)
    by (cases "first_failure fd be (iterations st)") auto
  then show ?thesis
    using structure_of_fields [of sb st] by simp
qed

lemma run_one_by_two:
  "snd (generateStoryboard demo_formData (fake_backend one_by_two 0)) = Inr demo_storyboard"
  by (simp add: generateStoryboard_def fake_backend_def one_by_two_def demo_clip_def
      demo_storyboard_def findInlineData_def first_candidate_parts_def inline_response_def
      falsy_def Let_def Promise_all_def)

theorem storyboard_keeps_the_structure_witness:
  "snd (generateStoryboard demo_formData (fake_backend one_by_two 0)) = Inr demo_storyboard \<and>
   structure_of demo_storyboard = one_by_two \<and> length demo_storyboard = length one_by_two"
  using storyboard_keeps_the_structure [where fd = demo_formData and be = "fake_backend one_by_two 0"
      and st = one_by_two and sb = demo_storyboard]
  by (simp add: run_one_by_two) (simp add: fake_backend_def)




lemma show_int_numeral [simp]: "show_int (numeral k) = show_nat (numeral k)"
  by (simp add: show_int_def)

lemma show_int_1 [simp]: "show_int 1 = ''1''"
  by (simp add: show_int_def)



text \<open>
  Claim C4, as amended. For every run over a decoded structure of \<open>C\<close> clips, the trace
  is: the first progress message, the structure request, the second progress message,
  then, for each iteration the run enters, in order, that iteration's progress message
  followed by its two requests, and at the end the completion message if the run
  succeeds. The progress message of iteration \<open>k\<close> ends with the counter \<open>k\<close> and the
  total \<open>C\<close> in decimal digits, which read back as \<open>k\<close> and \<open>C\<close>. The iterations are
  numbered \<open>1, \<dots>, C\<close>. A run that succeeds enters all \<open>C\<close> iterations; a run that
  fails enters those up to the failing one, which may be fewer than \<open>C\<close>. The scene and
  clip numbers are taken in the safe integer range.
\<close>

theorem progress_callback_trace:
  assumes "structure_reply fd be = Inr (Decoded st)"
    and "safe_numbers st"
  shows "fst (generateStoryboard fd be) =
           opening_events fd @ [Progress ''Membuat visual untuk setiap klip...''] @
           concat (map (clip_events fd (totalClips_of st))
             (take (attempted fd be (iterations st)) (iterations st))) @
           (if first_failure fd be (iterations st) = None then [Progress ''Selesai!''] else []) \<and>
         length (iterations st) = totalClips_of st \<and>
         map fst (iterations st) = [1..<Suc (totalClips_of st)] \<and>
         (\<forall>k. read_nat (show_nat k) = k) \<and>
         attempted fd be (iterations st) \<le> totalClips_of st \<and>
         ((\<exists>sb. snd (generateStoryboard fd be) = Inr sb) \<longleftrightarrow>
            first_failure fd be (iterations st) = None) \<and>
         (first_failure fd be (iterations st) = None \<longrightarrow>
            attempted fd be (iterations st) = totalClips_of st)"
proof -
  have 1: "length (iterations st) = totalClips_of st"
    by (rule length_iterations)
  have 2: "map fst (iterations st) = [1..<Suc (totalClips_of st)]"
    by (simp add: iterations_def totalClips_of_eq enumerate_eq_zip)
  have 3: "attempted fd be (iterations st) \<le> totalClips_of st"
    using attempted_le [of fd be "iterations st"] 1 by simp
  have 4: "(\<exists>sb. snd (generateStoryboard fd be) = Inr sb) \<longleftrightarrow>
            first_failure fd be (iterations st) = None"
    using generateStoryboard_result [OF assms(1)]
    by (cases "first_failure fd be (iterations st)") auto
  have 5: "first_failure fd be (iterations st) = None \<longrightarrow>
            attempted fd be (iterations st) = totalClips_of st"
    using attempted_all [of fd be "iterations st"] 1 by simp
  have 6: "fst (generateStoryboard fd be) =
           opening_events fd @ [Progress ''Membuat visual untuk setiap klip...''] @
           concat (map (clip_events fd (totalClips_of st))
             (take (attempted fd be (iterations st)) (iterations st))) @
           (if first_failure fd be (iterations st) = None then [Progress ''Selesai!''] else [])"
    using generateStoryboard_trace [OF assms(1)]
    by (simp add: msg_analysing_def msg_visuals_def msg_done_def)
  show ?thesis
    using 1 2 3 4 5 6 read_nat_show_nat by blast
qed

lemma iterations_three_clips:
  "iterations three_clips = [(1, 1, demo_clip 1), (2, 1, demo_clip 2), (3, 2, demo_clip 1)]"
  by (simp add: iterations_def clip_sequence_def three_clips_def enumerate_eq_zip upt_rec)

theorem progress_callback_trace_witness:
  "fst (generateStoryboard demo_formData (fake_backend three_clips 0)) =
     [Progress ''Menganalisis cerita dan karakter...'',
      StructureRequest ''T'' ''D'' Style2D ''portrait'',
      Progress ''Membuat visual untuk setiap klip...'',
      Progress ''Membuat visual & audio untuk adegan 1, klip 1... (1/3)'',
      ImageRequest [Part None (Some ''Using the provided reference images for the characters, generate an image for the following prompt: p'')],
      AudioRequest ''n'',
      Progress ''Membuat visual & audio untuk adegan 1, klip 2... (2/3)'',
      ImageRequest [Part None (Some ''Using the provided reference images for the characters, generate an image for the following prompt: p'')],
      AudioRequest ''n'',
      Progress ''Membuat visual & audio untuk adegan 2, klip 1... (3/3)'',
      ImageRequest [Part None (Some ''Using the provided reference images for the characters, generate an image for the following prompt: p'')],
      AudioRequest ''n'',
      Progress ''Selesai!'']"
proof -
  let ?be = "fake_backend three_clips 0"
  have r: "structure_reply demo_formData ?be = Inr (Decoded three_clips)"
    by (simp add: fake_backend_def)
  have safe: "safe_numbers three_clips"
    by (simp add: safe_numbers_def three_clips_def demo_clip_def safe_integer_def)
  have f: "\<not> falsy (findInlineData (inline_response d))" if "d \<noteq> []" for d
    using that
    by (simp add: findInlineData_def first_candidate_parts_def inline_response_def falsy_def)
  have ok: "media_ok demo_formData ?be (k, sc, c)" if "k \<noteq> 0" for k sc c
    using that by (simp add: fake_backend_def Promise_all_def f)
  have att: "attempted demo_formData ?be
      [(1, 1, demo_clip 1), (2, 1, demo_clip 2), (3, 2, demo_clip 1)] = 3"
    using ok by (simp del: media_ok.simps)
  have ff: "first_failure demo_formData ?be
      [(1, 1, demo_clip 1), (2, 1, demo_clip 2), (3, 2, demo_clip 1)] = None"
    using ok by (simp del: media_ok.simps)
  have T: "totalClips_of three_clips = 3"
    by (simp add: totalClips_of_def three_clips_def)
  have "fst (generateStoryboard demo_formData ?be) =
      opening_events demo_formData @ [Progress ''Membuat visual untuk setiap klip...''] @
      concat (map (clip_events demo_formData 3)
        [(1, 1, demo_clip 1), (2, 1, demo_clip 2), (3, 2, demo_clip 1)]) @
      [Progress ''Selesai!'']"
    using progress_callback_trace [OF r safe]
    by (simp only: iterations_three_clips att ff T take_all_iff length_Cons list.size if_True)
      simp
  then show ?thesis
    by (simp add: demo_clip_def demo_formData_def orientation_def imageParts_def
        imagePrompt_def digit_char_def)
qed

text \<open>
  The claim as first stated (exactly \<open>C\<close> callbacks in the loop of every run) fails on a
  run that aborts: a structure of two clips, the image payload of the first missing.
\<close>

theorem aborted_run_has_fewer_callbacks:
  "totalClips_of one_by_two = 2 \<and>
   fst (generateStoryboard demo_formData (fake_backend one_by_two 1)) =
     [Progress ''Menganalisis cerita dan karakter...'',
      StructureRequest ''T'' ''D'' Style2D ''portrait'',
      Progress ''Membuat visual untuk setiap klip...'',
      Progress ''Membuat visual & audio untuk adegan 1, klip 1... (1/2)'',
      ImageRequest [Part None (Some ''Using the provided reference images for the characters, generate an image for the following prompt: p'')],
      AudioRequest ''n'']"
  by (simp add: generateStoryboard_def fake_backend_def one_by_two_def demo_clip_def
      demo_formData_def totalClips_of_def orientation_def imageParts_def imagePrompt_def
      findInlineData_def first_candidate_parts_def inline_response_def empty_response_def
      falsy_def Let_def msg_analysing_def msg_visuals_def clip_progress_message_def
      show_int_def digit_char_def Promise_all_def numeral_2_eq_2 [symmetric])

section \<open>Claims about the audio decoding and the player\<close>

lemma decodeAudioData_correct:
  assumes "length data = 2 * N" and "0 < N"
  shows "\<exists>buffer. decodeAudioData data = Inr buffer \<and>
           sampleRate buffer = 24000 \<and>
           length (channelData buffer) = N \<and>
           (\<forall>i < N. channelData buffer ! i =
              real_of_int (sample16 (data ! (2 * i)) (data ! (2 * i + 1))) / 32768)"
proof -
  let ?d = "int16_elements data"
  have len: "length ?d = N"
    using assms by (simp add: length_int16_elements)
  have "decodeAudioData data =
      Inr \<lparr>sampleRate = 24000, channelData = decodeAudioData_loop ?d 0 (replicate N 0)\<rparr>"
    using assms len by (simp add: decodeAudioData_def new_Int16Array_def createBuffer_def)
  moreover have "decodeAudioData_loop ?d 0 (replicate N 0) ! i =
      real_of_int (sample16 (data ! (2 * i)) (data ! (2 * i + 1))) / 32768" if "i < N" for i
    using that len assms
    by (simp add: nth_decodeAudioData_loop nth_int16_elements sint_word_cat)
  ultimately show ?thesis
    by (simp add: length_decodeAudioData_loop)
qed

lemma decode_demo: "decode fake_atob ''AAD/fw=='' = Inr [0, 0, 255, 127]"
  by (simp add: decode_Some fake_atob_def)

lemma decodeAudioData_demo:
  "decodeAudioData [0, 0, 255, 127] = Inr \<lparr>sampleRate = 24000, channelData = [0, 32767 / 32768]\<rparr>"
  by (simp add: decodeAudioData_def new_Int16Array_def createBuffer_def
      decodeAudioData_loop.simps sint_word_cat sample16_def)

text \<open>
  Claim C5, as amended. The bytes that \<^verbatim>\<open>decode\<close> returns are the character codes of
  the binary string, in order. For every byte payload of length \<open>2 * N\<close> with \<open>N \<ge> 1\<close>,
  \<^verbatim>\<open>decodeAudioData\<close> returns a buffer of sample rate 24000 with exactly \<open>N\<close> values,
  the \<open>i\<close>-th of which is the signed 16-bit little-endian sample made of the bytes
  \<open>2 * i\<close> and \<open>2 * i + 1\<close>, divided by 32768.
\<close>

theorem decodeAudioData_samples:
  assumes "length data = 2 * N" and "0 < N"
  shows "(\<forall>atob b64 bin. atob b64 = Some bin \<longrightarrow> decode atob b64 = Inr (map of_char bin)) \<and>
         (\<exists>buffer. decodeAudioData data = Inr buffer \<and>
           sampleRate buffer = 24000 \<and>
           length (channelData buffer) = N \<and>
           (\<forall>i < N. channelData buffer ! i =
              real_of_int (sample16 (data ! (2 * i)) (data ! (2 * i + 1))) / 32768))"
  using decodeAudioData_correct [OF assms] decode_Some by blast

theorem decodeAudioData_samples_witness:
  "decode fake_atob ''AAD/fw=='' = Inr [0, 0, 255, 127] \<and>
   (\<exists>buffer. decodeAudioData [0, 0, 255, 127, 0, 128] = Inr buffer \<and>
     length (channelData buffer) = 3 \<and>
     channelData buffer ! 0 = 0 \<and>
     channelData buffer ! 1 = 32767 / 32768 \<and>
     channelData buffer ! 2 = - 1)"
proof -
  have t: "(\<forall>atob b64 bin. atob b64 = Some bin \<longrightarrow> decode atob b64 = Inr (map of_char bin)) \<and>
         (\<exists>buffer. decodeAudioData [0, 0, 255, 127, 0, 128] = Inr buffer \<and>
           sampleRate buffer = 24000 \<and>
           length (channelData buffer) = 3 \<and>
           (\<forall>i < 3. channelData buffer ! i =
              real_of_int (sample16 ([0, 0, 255, 127, 0, 128] ! (2 * i))
                ([0, 0, 255, 127, 0, 128] ! (2 * i + 1))) / 32768))"
    using decodeAudioData_samples [of "[0, 0, 255, 127, 0, 128]" 3] by simp
  then obtain buffer where b: "decodeAudioData [0, 0, 255, 127, 0, 128] = Inr buffer"
    "length (channelData buffer) = 3"
    and v: "\<forall>i < 3. channelData buffer ! i =
      real_of_int (sample16 ([0, 0, 255, 127, 0, 128] ! (2 * i))
        ([0, 0, 255, 127, 0, 128] ! (2 * i + 1))) / 32768"
    by blast
  have a: "fake_atob ''AAD/fw=='' = Some [CHR 0x00, CHR 0x00, CHR 0xFF, CHR 0x7F]"
    by (simp add: fake_atob_def)
  have "decode fake_atob ''AAD/fw=='' = Inr (map of_char [CHR 0x00, CHR 0x00, CHR 0xFF, CHR 0x7F])"
    using t a by blast
  then have d: "decode fake_atob ''AAD/fw=='' = Inr [0, 0, 255, 127]"
    by simp
  have "channelData buffer ! 0 = 0"
    using v [rule_format, of 0] by (simp add: sample16_def)
  moreover have "channelData buffer ! 1 = 32767 / 32768"
    using v [rule_format, of 1] by (simp add: sample16_def)
  moreover have "channelData buffer ! 2 = - 1"
    using v [rule_format, of 2] by (simp add: sample16_def)
  ultimately show ?thesis
    using b d by blast
qed

text \<open>
  The claim as first stated (every payload of length \<open>2 * N\<close> yields a buffer of \<open>N\<close>
  values) fails for \<open>N = 0\<close>: no buffer of zero frames can be created.
\<close>

theorem decodeAudioData_empty_payload_throws:
  "length ([] :: byte list) = 2 * 0 \<and> decodeAudioData [] = Inl NotSupportedError"
  by (simp add: decodeAudioData_def new_Int16Array_def createBuffer_def)

lemma stopAudio_keeps:
  assumes "stopAudio s = Inr s0"
  shows "length (nodes s0) = length (nodes s) \<and> invoked s0 = invoked s"
  using assms
  by (auto simp: stopAudio_def node_stop_def node_disconnect_def update_node_def
      split: option.splits if_splits)

lemma playAudio_begin_Inr:
  assumes "playAudio_begin atob b64 s = (s1, Inr audioBuffer)"
  shows "\<exists>s0. stopAudio s = Inr s0 \<and> s1 = getAudioContext s0"
  using assms
  by (auto simp: playAudio_begin_def Let_def split: sum.splits)

lemmas player_defs =
  playAudio_def playAudio_begin_def stopAudio_def node_stop_def node_disconnect_def
  update_node_def getAudioContext_def playAudio_resume_eq playback_finished_def
  deliver_ended_def dispatch_ended_def ended_handler_def

lemma played_once:
  "playAudio fake_atob ''AAD/fw=='' 7 initial_player =
     (\<lparr>audioContext = True, currentSource = Some 0,
       nodes = [\<lparr>node_buffer = Some \<lparr>sampleRate = 24000, channelData = [0, 32767 / 32768]\<rparr>,
                 is_connected = True, started = True, playing = True, ended_pending = False,
                 onended = Some 7\<rparr>],
       invoked = []\<rparr>, None)"
  by (simp add: player_defs initial_player_def decode_demo decodeAudioData_demo)


lemma stopped_once:
  "stopAudio (run fake_atob [PlayAudio ''AAD/fw=='' 7]) =
     Inr \<lparr>audioContext = True, currentSource = None,
       nodes = [\<lparr>node_buffer = Some \<lparr>sampleRate = 24000, channelData = [0, 32767 / 32768]\<rparr>,
                 is_connected = False, started = True, playing = False, ended_pending = True,
                 onended = Some 7\<rparr>],
       invoked = []\<rparr>"
  by (simp add: run_def played_once)
    (simp add: stopAudio_def node_stop_def node_disconnect_def update_node_def)

text \<open>
  Claim C9. \<^verbatim>\<open>stopAudio\<close> changes nothing and does not throw when there is no current
  source; after a \<^verbatim>\<open>stopAudio\<close> that returned there is no current source, so that a
  second \<^verbatim>\<open>stopAudio\<close> changes nothing: two calls in a row have the effect of one. In
  every state that calls and events of the platform can lead to, \<^verbatim>\<open>stopAudio\<close> returns.
\<close>

theorem stopAudio_idempotent:
  "(currentSource s = None \<longrightarrow> stopAudio s = Inr s) \<and>
   (stopAudio s = Inr s' \<longrightarrow> currentSource s' = None \<and> stopAudio s' = Inr s') \<and>
   step atob (step atob s StopAudio) StopAudio = step atob s StopAudio \<and>
   (\<exists>s'. stopAudio (run atob acts) = Inr s')"
proof -
  have "step atob (step atob s StopAudio) StopAudio = step atob s StopAudio"
  proof (cases "stopAudio s")
    case (Inl e)
    then show ?thesis by simp
  next
    case (Inr s')
    then show ?thesis using stopAudio_twice [OF Inr] by simp
  qed
  moreover have "\<exists>s'. stopAudio (run atob acts) = Inr s'"
    using stopAudio_source_started [OF run_source_started, of atob acts] by blast
  ultimately show ?thesis
    using stopAudio_None [of s] stopAudio_twice [of s s'] by blast
qed

theorem stopAudio_idempotent_witness:
  "stopAudio initial_player = Inr initial_player \<and>
   stopAudio (run fake_atob [PlayAudio ''AAD/fw=='' 7]) =
     Inr \<lparr>audioContext = True, currentSource = None,
       nodes = [\<lparr>node_buffer = Some \<lparr>sampleRate = 24000, channelData = [0, 32767 / 32768]\<rparr>,
                 is_connected = False, started = True, playing = False, ended_pending = True,
                 onended = Some 7\<rparr>],
       invoked = []\<rparr> \<and>
   stopAudio \<lparr>audioContext = True, currentSource = None,
       nodes = [\<lparr>node_buffer = Some \<lparr>sampleRate = 24000, channelData = [0, 32767 / 32768]\<rparr>,
                 is_connected = False, started = True, playing = False, ended_pending = True,
                 onended = Some 7\<rparr>],
       invoked = []\<rparr> =
     Inr \<lparr>audioContext = True, currentSource = None,
       nodes = [\<lparr>node_buffer = Some \<lparr>sampleRate = 24000, channelData = [0, 32767 / 32768]\<rparr>,
                 is_connected = False, started = True, playing = False, ended_pending = True,
                 onended = Some 7\<rparr>],
       invoked = []\<rparr>"
proof -
  have 1: "stopAudio initial_player = Inr initial_player"
    using stopAudio_idempotent [of initial_player] by (simp add: initial_player_def)
  show ?thesis
    using 1 stopped_once stopAudio_idempotent [of "run fake_atob [PlayAudio ''AAD/fw=='' 7]"
      "\<lparr>audioContext = True, currentSource = None,
       nodes = [\<lparr>node_buffer = Some \<lparr>sampleRate = 24000, channelData = [0, 32767 / 32768]\<rparr>,
                 is_connected = False, started = True, playing = False, ended_pending = True,
                 onended = Some 7\<rparr>],
       invoked = []\<rparr>"]
    by blast
qed


lemma run_play_finish_event:
  "run fake_atob [PlayAudio ''AAD/fw=='' 7, PlaybackFinished 0, EndedEvent 0] =
     \<lparr>audioContext = True, currentSource = None,
       nodes = [\<lparr>node_buffer = Some \<lparr>sampleRate = 24000, channelData = [0, 32767 / 32768]\<rparr>,
                 is_connected = True, started = True, playing = False, ended_pending = False,
                 onended = Some 7\<rparr>],
       invoked = [7]\<rparr>"
  by (simp add: run_def played_once)
    (simp add: playback_finished_def deliver_ended_def dispatch_ended_def ended_handler_def
      update_node_def)



text \<open>
  Claim C8, as amended. A call of \<^verbatim>\<open>playAudio\<close> with callback \<^verbatim>\<open>onEnded\<close> that
  returned has started a new source and invoked nothing. When that source has played to
  the end, nothing is invoked until its \<^verbatim>\<open>ended\<close> event is delivered; the delivery
  invokes \<^verbatim>\<open>onEnded\<close> once, and nothing that happens to the source later invokes it
  again. \<^verbatim>\<open>stopAudio\<close> on the playing source invokes nothing itself, but it leaves the
  handler on the source, and the \<^verbatim>\<open>ended\<close> event that the platform delivers for the
  stopped source invokes \<^verbatim>\<open>onEnded\<close> once, and only once.
\<close>

theorem onEnded_once_per_playback:
  assumes "playAudio atob b64 onEnded s = (s1, None)"
  shows "invoked s1 = invoked s \<and>
         currentSource s1 = Some (length (nodes s)) \<and>
         playing (nodes s1 ! length (nodes s)) \<and>
         invoked (playback_finished (length (nodes s)) s1) = invoked s \<and>
         invoked (deliver_ended (length (nodes s)) (playback_finished (length (nodes s)) s1)) =
           invoked s @ [onEnded] \<and>
         deliver_ended (length (nodes s))
             (deliver_ended (length (nodes s)) (playback_finished (length (nodes s)) s1)) =
           deliver_ended (length (nodes s)) (playback_finished (length (nodes s)) s1) \<and>
         playback_finished (length (nodes s))
             (deliver_ended (length (nodes s)) (playback_finished (length (nodes s)) s1)) =
           deliver_ended (length (nodes s)) (playback_finished (length (nodes s)) s1) \<and>
         (\<exists>s2. stopAudio s1 = Inr s2 \<and> invoked s2 = invoked s \<and>
               playback_finished (length (nodes s)) s2 = s2 \<and>
               invoked (deliver_ended (length (nodes s)) s2) = invoked s @ [onEnded] \<and>
               deliver_ended (length (nodes s)) (deliver_ended (length (nodes s)) s2) =
                 deliver_ended (length (nodes s)) s2)"
proof -
  obtain s' audioBuffer where b: "playAudio_begin atob b64 s = (s', Inr audioBuffer)"
    and s1: "s1 = playAudio_resume onEnded audioBuffer s'"
    using assms by (auto simp: playAudio_def split: prod.splits sum.splits)
  obtain s0 where s0: "stopAudio s = Inr s0" "s' = getAudioContext s0"
    using playAudio_begin_Inr [OF b] by blast
  have len: "length (nodes s') = length (nodes s)" and inv: "invoked s' = invoked s"
    using stopAudio_keeps [OF s0(1)] by (simp_all add: s0(2) getAudioContext_fields)
  let ?n = "length (nodes s)"
  let ?new = "\<lparr>node_buffer = Some audioBuffer, is_connected = True, started = True,
      playing = True, ended_pending = False, onended = Some onEnded\<rparr>"
  have s1': "s1 = s'\<lparr>nodes := nodes s' @ [?new], currentSource := Some ?n\<rparr>"
    by (simp add: s1 playAudio_resume_eq len)
  have f: "playback_finished ?n s1 =
      s'\<lparr>nodes := nodes s' @ [?new\<lparr>playing := False, ended_pending := True\<rparr>],
         currentSource := Some ?n\<rparr>"
    by (simp add: s1' playback_finished_def update_node_def len [symmetric])
  have g: "deliver_ended ?n (playback_finished ?n s1) =
      s'\<lparr>nodes := nodes s' @ [?new\<lparr>playing := False\<rparr>],
         currentSource := None, invoked := invoked s @ [onEnded]\<rparr>"
    unfolding f
    by (simp add: deliver_ended_def dispatch_ended_def ended_handler_def update_node_def
        len [symmetric] inv [symmetric])
  have st: "stopAudio s1 =
      Inr (s'\<lparr>nodes := nodes s' @ [?new\<lparr>playing := False, ended_pending := True,
              is_connected := False\<rparr>], currentSource := None\<rparr>)"
    by (simp add: s1' stopAudio_def node_stop_def node_disconnect_def update_node_def
        len [symmetric])
  let ?s2 = "s'\<lparr>nodes := nodes s' @ [?new\<lparr>playing := False, ended_pending := True,
              is_connected := False\<rparr>], currentSource := None\<rparr>"
  have h: "deliver_ended ?n ?s2 =
      s'\<lparr>nodes := nodes s' @ [?new\<lparr>playing := False, is_connected := False\<rparr>],
         currentSource := None, invoked := invoked s @ [onEnded]\<rparr>"
    by (simp add: deliver_ended_def dispatch_ended_def ended_handler_def update_node_def
        len [symmetric] inv [symmetric])
  have 1: "invoked s1 = invoked s"
    by (simp add: s1' inv)
  have 2: "currentSource s1 = Some ?n"
    by (simp add: s1')
  have 3: "playing (nodes s1 ! ?n)"
    by (simp add: s1' len [symmetric])
  have 4: "invoked (playback_finished ?n s1) = invoked s"
    by (simp add: f inv)
  have 5: "invoked (deliver_ended ?n (playback_finished ?n s1)) = invoked s @ [onEnded]"
    by (simp add: g)
  have 6: "deliver_ended ?n (deliver_ended ?n (playback_finished ?n s1)) =
      deliver_ended ?n (playback_finished ?n s1)"
    unfolding g by (simp add: deliver_ended_def len [symmetric])
  have 7: "playback_finished ?n (deliver_ended ?n (playback_finished ?n s1)) =
      deliver_ended ?n (playback_finished ?n s1)"
    unfolding g by (simp add: playback_finished_def len [symmetric])
  have 8: "invoked ?s2 = invoked s"
    by (simp add: inv)
  have 9: "playback_finished ?n ?s2 = ?s2"
    by (simp add: playback_finished_def len [symmetric])
  have 10: "invoked (deliver_ended ?n ?s2) = invoked s @ [onEnded]"
    unfolding h by simp
  have 11: "deliver_ended ?n (deliver_ended ?n ?s2) = deliver_ended ?n ?s2"
    unfolding h by (simp add: deliver_ended_def len [symmetric])
  have "\<exists>s2. stopAudio s1 = Inr s2 \<and> invoked s2 = invoked s \<and>
               playback_finished ?n s2 = s2 \<and>
               invoked (deliver_ended ?n s2) = invoked s @ [onEnded] \<and>
               deliver_ended ?n (deliver_ended ?n s2) = deliver_ended ?n s2"
    using st 8 9 10 11 by blast
  then show ?thesis
    using 1 2 3 4 5 6 7 by blast
qed

theorem onEnded_once_per_playback_witness:
  "invoked (fst (playAudio fake_atob ''AAD/fw=='' 7 initial_player)) = [] \<and>
   invoked (playback_finished 0 (fst (playAudio fake_atob ''AAD/fw=='' 7 initial_player))) = [] \<and>
   invoked (deliver_ended 0
     (playback_finished 0 (fst (playAudio fake_atob ''AAD/fw=='' 7 initial_player)))) = [7] \<and>
   (\<exists>s2. stopAudio (fst (playAudio fake_atob ''AAD/fw=='' 7 initial_player)) = Inr s2 \<and>
      invoked s2 = [] \<and> invoked (deliver_ended 0 s2) = [7])"
proof -
  have p: "playAudio fake_atob ''AAD/fw=='' 7 initial_player =
      (fst (playAudio fake_atob ''AAD/fw=='' 7 initial_player), None)"
    by (simp add: played_once)
  have n: "length (nodes initial_player) = 0" "invoked initial_player = []"
    by (simp_all add: initial_player_def)
  show ?thesis
    using onEnded_once_per_playback [OF p, unfolded n append_Nil] by blast
qed

text \<open>
  The claim as first stated (an explicit \<^verbatim>\<open>stopAudio\<close> does not invoke \<^verbatim>\<open>onEnded\<close>)
  fails once the \<^verbatim>\<open>ended\<close> event of the stopped source is delivered: play, stop, and
  the event; the callback has been invoked.
\<close>

theorem stopped_playback_invokes_onEnded:
  "invoked (run fake_atob [PlayAudio ''AAD/fw=='' 7, StopAudio]) = [] \<and>
   invoked (run fake_atob [PlayAudio ''AAD/fw=='' 7, StopAudio, EndedEvent 0]) = [7]"
  by (simp add: run_def played_once)
    (simp add: stopAudio_def node_stop_def node_disconnect_def update_node_def
      deliver_ended_def dispatch_ended_def ended_handler_def)

text \<open>
  Claim C10, as amended. In every state that calls and events can lead to, a call of
  \<^verbatim>\<open>playAudio\<close> first stops and disconnects the current source and clears
  \<^verbatim>\<open>currentSource\<close>. If the input decodes to \<open>2 * N\<close> bytes with \<open>N \<ge> 1\<close>, the call
  then succeeds and plays a buffer of exactly \<open>N\<close> samples, which are the 16-bit
  little-endian samples of the bytes divided by 32768. If the input decodes to an odd
  number of bytes the call fails with \<^verbatim>\<open>RangeError\<close>, and if it decodes to no byte at
  all it fails with \<^verbatim>\<open>NotSupportedError\<close>; in both cases the state is the one after
  the stop, so the previous source has been stopped and no new one exists.
\<close>

theorem playAudio_total_on_even_nonempty_input:
  assumes "s = run atob acts" and "atob b64 = Some bin"
  shows "\<exists>s0. stopAudio s = Inr s0 \<and> currentSource s0 = None \<and>
     length (nodes s0) = length (nodes s) \<and>
     (\<forall>i. currentSource s = Some i \<longrightarrow>
        \<not> playing (nodes s0 ! i) \<and> \<not> is_connected (nodes s0 ! i)) \<and>
     (length bin = 2 * N \<and> 0 < N \<longrightarrow>
        (\<exists>audioBuffer. length (channelData audioBuffer) = N \<and>
           (\<forall>i < N. channelData audioBuffer ! i =
              real_of_int (sample16 (of_char (bin ! (2 * i))) (of_char (bin ! (2 * i + 1)))) / 32768) \<and>
           playAudio atob b64 onEnded s =
             (playAudio_resume onEnded audioBuffer (getAudioContext s0), None))) \<and>
     (odd (length bin) \<longrightarrow>
        playAudio atob b64 onEnded s = (getAudioContext s0, Some RangeError)) \<and>
     (bin = [] \<longrightarrow>
        playAudio atob b64 onEnded s = (getAudioContext s0, Some NotSupportedError))"
proof -
  have wf: "source_started s"
    using assms(1) by (simp add: run_source_started)
  obtain s0 where s0: "stopAudio s = Inr s0" "currentSource s0 = None"
    "length (nodes s0) = length (nodes s)"
    "\<forall>i. currentSource s = Some i \<longrightarrow>
        \<not> playing (nodes s0 ! i) \<and> \<not> is_connected (nodes s0 ! i)"
    using stopAudio_source_started [OF wf] by blast
  have b: "playAudio_begin atob b64 s = (getAudioContext s0, decodeAudioData (map of_char bin))"
    using playAudio_begin_source_started [OF wf, of atob b64] s0(1)
    by (simp add: decode_Some [of atob b64 bin] assms(2) prod_eq_iff)
  have even: "\<exists>audioBuffer. length (channelData audioBuffer) = N \<and>
           (\<forall>i < N. channelData audioBuffer ! i =
              real_of_int (sample16 (of_char (bin ! (2 * i))) (of_char (bin ! (2 * i + 1)))) / 32768) \<and>
           playAudio atob b64 onEnded s =
             (playAudio_resume onEnded audioBuffer (getAudioContext s0), None)"
    if len2: "length bin = 2 * N" and pos: "0 < N"
  proof -
    have L: "length (map of_char bin :: byte list) = 2 * N"
      using len2 by simp
    obtain audioBuffer where ab: "decodeAudioData (map of_char bin) = Inr audioBuffer"
      "length (channelData audioBuffer) = N"
      "\<forall>i < N. channelData audioBuffer ! i =
         real_of_int (sample16 (map of_char bin ! (2 * i)) (map of_char bin ! (2 * i + 1))) / 32768"
      using decodeAudioData_correct [OF L pos] by blast
    have v: "channelData audioBuffer ! i =
        real_of_int (sample16 (of_char (bin ! (2 * i))) (of_char (bin ! (2 * i + 1)))) / 32768"
      if "i < N" for i
    proof -
      have "2 * i < length bin" "2 * i + 1 < length bin"
        using that len2 by simp_all
      then have e: "(map of_char bin :: byte list) ! (2 * i) = of_char (bin ! (2 * i))"
        "(map of_char bin :: byte list) ! (2 * i + 1) = of_char (bin ! (2 * i + 1))"
        by (simp_all only: nth_map)
      show ?thesis
        using ab(3) [rule_format, OF that] unfolding e .
    qed
    have "playAudio atob b64 onEnded s =
        (playAudio_resume onEnded audioBuffer (getAudioContext s0), None)"
      using b ab(1) by (simp add: playAudio_def)
    then show ?thesis
      using ab(2) v by blast
  qed
  have odd: "playAudio atob b64 onEnded s = (getAudioContext s0, Some RangeError)"
    if "odd (length bin)"
    using that b by (simp add: playAudio_def decodeAudioData_def new_Int16Array_def)
  have empty: "playAudio atob b64 onEnded s = (getAudioContext s0, Some NotSupportedError)"
    if "bin = []"
    using that b
    by (simp add: playAudio_def decodeAudioData_def new_Int16Array_def createBuffer_def)
  show ?thesis
    using s0 even odd empty by blast
qed

theorem playAudio_total_on_even_nonempty_input_witness:
  "playAudio fake_atob ''AAD/fw=='' 7 initial_player =
     (\<lparr>audioContext = True, currentSource = Some 0,
       nodes = [\<lparr>node_buffer = Some \<lparr>sampleRate = 24000, channelData = [0, 32767 / 32768]\<rparr>,
                 is_connected = True, started = True, playing = True, ended_pending = False,
                 onended = Some 7\<rparr>],
       invoked = []\<rparr>, None) \<and>
   playAudio fake_atob ''AAD/'' 9 (run fake_atob [PlayAudio ''AAD/fw=='' 7]) =
     (\<lparr>audioContext = True, currentSource = None,
       nodes = [\<lparr>node_buffer = Some \<lparr>sampleRate = 24000, channelData = [0, 32767 / 32768]\<rparr>,
                 is_connected = False, started = True, playing = False, ended_pending = True,
                 onended = Some 7\<rparr>],
       invoked = []\<rparr>, Some RangeError)"
proof -
  have a: "fake_atob ''AAD/'' = Some [CHR 0x00, CHR 0x00, CHR 0xFF]"
    by (simp add: fake_atob_def)
  show ?thesis
    using playAudio_total_on_even_nonempty_input [of "run fake_atob [PlayAudio ''AAD/fw=='' 7]"
        fake_atob "[PlayAudio ''AAD/fw=='' 7]" "''AAD/''" "[CHR 0x00, CHR 0x00, CHR 0xFF]" 0 9,
        OF refl a]
    by (simp add: stopped_once played_once getAudioContext_def)
qed

text \<open>
  The claim as first stated (every input that decodes to \<open>2 * N\<close> bytes passes the decode
  stage) fails for \<open>N = 0\<close>: the empty text decodes to no byte, and the call fails.
\<close>

theorem playAudio_empty_input_throws:
  "fake_atob [] = Some [] \<and>
   playAudio fake_atob [] 7 initial_player =
     (\<lparr>audioContext = True, currentSource = None, nodes = [], invoked = []\<rparr>,
      Some NotSupportedError)"
  by (simp add: player_defs initial_player_def decode_Some fake_atob_def decodeAudioData_def
      new_Int16Array_def createBuffer_def)

end
